theory Spec2Isabelle
  imports Complex_Main
begin

section \<open>Cards\<close>

text \<open>
  \<^verbatim>\<open>src/types.ts\<close>: the enums \<open>Suit\<close> and \<open>Rank\<close> and the interface \<open>Card\<close>. The field
  \<open>value\<close> of a card is called \<open>cardValue\<close> here. \<open>RANK_VALUES\<close> is the table of both engines.
\<close>

datatype Suit = HEARTS | DIAMONDS | CLUBS | SPADES

datatype Rank = TWO | THREE | FOUR | FIVE | SIX | SEVEN | EIGHT | NINE | TEN
  | JACK | QUEEN | KING | ACE

record card =
  suit :: Suit
  rank :: Rank
  cardValue :: int

fun RANK_VALUES :: "Rank \<Rightarrow> int" where
  "RANK_VALUES TWO = 2"
| "RANK_VALUES THREE = 3"
| "RANK_VALUES FOUR = 4"
| "RANK_VALUES FIVE = 5"
| "RANK_VALUES SIX = 6"
| "RANK_VALUES SEVEN = 7"
| "RANK_VALUES EIGHT = 8"
| "RANK_VALUES NINE = 9"
| "RANK_VALUES TEN = 10"
| "RANK_VALUES JACK = 11"
| "RANK_VALUES QUEEN = 12"
| "RANK_VALUES KING = 13"
| "RANK_VALUES ACE = 14"

text \<open>The card that \<open>createDeck\<close> pushes for a suit and a rank.\<close>

definition mkCard :: "Suit \<Rightarrow> Rank \<Rightarrow> card" where
  "mkCard s r = \<lparr>suit = s, rank = r, cardValue = RANK_VALUES r\<rparr>"

definition createDeck :: "card list" where
  "createDeck =
     concat (map (\<lambda>s. map (\<lambda>r. mkCard s r)
       [TWO, THREE, FOUR, FIVE, SIX, SEVEN, EIGHT, NINE, TEN, JACK, QUEEN, KING, ACE])
       [HEARTS, DIAMONDS, CLUBS, SPADES])"

section \<open>Hand evaluation\<close>

text \<open>
  Both engines return an object \<open>{score, name}\<close>. The server's scores are integers; the
  client's One Pair score adds \<open>value * Math.pow(0.1, i)\<close> for the kickers, so the client's
  score is a rational here, with the exact decimal weights \<open>1\<close>, \<open>1/10\<close>, \<open>1/100\<close>
  (the double the program computes differs from it by rounding only).
  The only exception either evaluator can raise is the \<open>TypeError\<close> of reading \<open>.value\<close>
  of \<open>cards[0]\<close> when there is no card at all.
\<close>

datatype js_error = TypeError

record 'n handEval =
  score :: 'n
  name :: string

text \<open>\<open>cards.sort((a, b) => b.value - a.value)\<close>: a stable sort, highest value first.\<close>

definition sortDesc :: "card list \<Rightarrow> card list" where
  "sortDesc cs = sort_key (\<lambda>c. - cardValue c) cs"

text \<open>
  The object \<open>suits\<close> of \<open>isFlush\<close>: its keys are the suits in the order in which they were
  first stored, each with its count. \<open>bumpKey\<close> is \<open>suits[k] = (suits[k] || 0) + 1\<close>.
\<close>

fun bumpKey :: "'k \<Rightarrow> ('k \<times> nat) list \<Rightarrow> ('k \<times> nat) list" where
  "bumpKey k [] = [(k, 1)]"
| "bumpKey k ((k', n) # m) = (if k' = k then (k', n + 1) # m else (k', n) # bumpKey k m)"

definition suitCounts :: "card list \<Rightarrow> (Suit \<times> nat) list" where
  "suitCounts cs = fold bumpKey (map suit cs) []"

text \<open>
  \<open>isFlush\<close> (the same in both engines): the first suit, in key order, with five cards or
  more; the result is that suit's cards, cut to the first five.
\<close>

definition isFlush :: "card list \<Rightarrow> card list option" where
  "isFlush cs =
     (case find (\<lambda>(s, n). 5 \<le> n) (suitCounts cs) of
        None \<Rightarrow> None
      | Some (flushSuit, n) \<Rightarrow> Some (take 5 (filter (\<lambda>c. suit c = flushSuit) cs)))"

text \<open>
  \<open>Array.from(new Set(cs.map(c => c.value))).sort((a, b) => b - a)\<close>: the distinct
  values, highest first.
\<close>

definition uniqueValues :: "card list \<Rightarrow> int list" where
  "uniqueValues cs = sort_key (\<lambda>v. - v) (remdups (map cardValue cs))"

text \<open>
  The loop \<open>for (i = 0; i <= unique.length - 5; i++) if (unique[i] - unique[i + 4] === 4)
  return unique[i]\<close>: the window of five slides from the front of the list.
\<close>

fun straightScan :: "int list \<Rightarrow> int option" where
  "straightScan (a # b # c # d # e # rest) =
     (if a - e = 4 then Some a else straightScan (b # c # d # e # rest))"
| "straightScan _ = None"

text \<open>The client's \<open>isStraight\<close>: the wheel needs the ace, 5, 4, 3 and 2.\<close>

definition isStraight :: "card list \<Rightarrow> int option" where
  "isStraight cs =
     (let u = uniqueValues cs in
      case straightScan u of
        Some h \<Rightarrow> Some h
      | None \<Rightarrow>
          (if 14 \<in> set u \<and> 5 \<in> set u \<and> 4 \<in> set u \<and> 3 \<in> set u \<and> 2 \<in> set u
           then Some 5 else None))"

text \<open>The server's \<open>isStraight\<close>: its wheel test asks for the ace, 5 and 2 only.\<close>

definition server_isStraight :: "card list \<Rightarrow> int option" where
  "server_isStraight cs =
     (let u = uniqueValues cs in
      case straightScan u of
        Some h \<Rightarrow> Some h
      | None \<Rightarrow> (if 14 \<in> set u \<and> 5 \<in> set u \<and> 2 \<in> set u then Some 5 else None))"

text \<open>
  \<open>if (x)\<close> on the result of \<open>isStraight\<close>: \<open>null\<close> and the number \<open>0\<close> are falsy.
\<close>

fun truthy :: "int option \<Rightarrow> bool" where
  "truthy None = False"
| "truthy (Some h) = (h \<noteq> 0)"

text \<open>
  The object \<open>counts\<close> (\<open>countRanks\<close> in the client): \<open>countOf cs v\<close> is \<open>counts[v]\<close>, and
  \<open>rankKeys\<close> is \<open>Object.keys(counts)\<close>, which lists integer keys in ascending order
  (card values are the integers 2 to 14).
\<close>

definition countOf :: "card list \<Rightarrow> int \<Rightarrow> nat" where
  "countOf cs v = length (filter (\<lambda>c. cardValue c = v) cs)"

definition rankKeys :: "card list \<Rightarrow> int list" where
  "rankKeys cs = sort (remdups (map cardValue cs))"

definition quadsOf :: "card list \<Rightarrow> int option" where
  "quadsOf cs = find (\<lambda>r. countOf cs r = 4) (rankKeys cs)"

definition tripsOf :: "card list \<Rightarrow> int list" where
  "tripsOf cs = sort_key (\<lambda>r. - r) (filter (\<lambda>r. countOf cs r = 3) (rankKeys cs))"

definition pairsOf :: "card list \<Rightarrow> int list" where
  "pairsOf cs = sort_key (\<lambda>r. - r) (filter (\<lambda>r. countOf cs r = 2) (rankKeys cs))"

text \<open>\<open>xs[i]?.value || 0\<close> and \<open>xs.find(p)?.value || 0\<close>.\<close>

definition valueAt :: "card list \<Rightarrow> nat \<Rightarrow> int" where
  "valueAt ks i = (if i < length ks then cardValue (ks ! i) else 0)"

definition findValue :: "(card \<Rightarrow> bool) \<Rightarrow> card list \<Rightarrow> int" where
  "findValue p cs = (case find p cs of None \<Rightarrow> 0 | Some c \<Rightarrow> cardValue c)"

text \<open>
  \<open>kickers.reduce((acc, c, i) => acc + c.value * Math.pow(0.1, i), 0)\<close>, from index \<open>i\<close> on.
\<close>

fun kickerSum :: "nat \<Rightarrow> card list \<Rightarrow> rat" where
  "kickerSum i [] = 0"
| "kickerSum i (c # cs) = of_int (cardValue c) * (1 / 10) ^ i + kickerSum (Suc i) cs"

text \<open>
  The client's \<open>evaluateHand\<close> (\<^verbatim>\<open>utils/poker.ts\<close>), rule by rule in the order of the source.
\<close>

definition evaluateHand :: "card list \<Rightarrow> card list \<Rightarrow> js_error + rat handEval" where
  "evaluateHand holeCards communityCards =
     (let cards = sortDesc (holeCards @ communityCards);
          flushCards = isFlush cards;
          straightHigh = isStraight cards;
          quads = quadsOf cards;
          trips = tripsOf cards;
          pairs = pairsOf cards;
          sfHigh = (case flushCards of None \<Rightarrow> None | Some fc \<Rightarrow> isStraight fc)
      in
      if flushCards \<noteq> None \<and> truthy sfHigh then
        Inr \<lparr>score = of_int (9000000 + the sfHigh), name = ''Straight Flush''\<rparr>
      else if quads \<noteq> None then
        (let q = the quads; kicker = findValue (\<lambda>c. cardValue c \<noteq> q) cards in
         Inr \<lparr>score = of_int (8000000 + q * 100 + kicker), name = ''Four of a Kind''\<rparr>)
      else if 0 < length trips \<and> (2 \<le> length trips \<or> 0 < length pairs) then
        (let t = trips ! 0; p = (if 2 \<le> length trips then trips ! 1 else pairs ! 0) in
         Inr \<lparr>score = of_int (7000000 + t * 100 + p), name = ''Full House''\<rparr>)
      else if flushCards \<noteq> None then
        (case the flushCards of
           [] \<Rightarrow> Inl TypeError
         | c # _ \<Rightarrow> Inr \<lparr>score = of_int (6000000 + cardValue c), name = ''Flush''\<rparr>)
      else if truthy straightHigh then
        Inr \<lparr>score = of_int (5000000 + the straightHigh), name = ''Straight''\<rparr>
      else if 0 < length trips then
        (let t = trips ! 0;
             kickers = take 2 (filter (\<lambda>c. cardValue c \<noteq> t) cards);
             kScore = valueAt kickers 0 * 10 + valueAt kickers 1 in
         Inr \<lparr>score = of_int (4000000 + t * 1000 + kScore), name = ''Three of a Kind''\<rparr>)
      else if 2 \<le> length pairs then
        (let p1 = pairs ! 0; p2 = pairs ! 1;
             kicker = findValue (\<lambda>c. cardValue c \<noteq> p1 \<and> cardValue c \<noteq> p2) cards in
         Inr \<lparr>score = of_int (3000000 + p1 * 1000 + p2 * 10 + kicker), name = ''Two Pair''\<rparr>)
      else if 0 < length pairs then
        (let p = pairs ! 0;
             kickers = take 3 (filter (\<lambda>c. cardValue c \<noteq> p) cards);
             kScore = kickerSum 0 kickers in
         Inr \<lparr>score = of_int (2000000 + p * 100) + kScore, name = ''One Pair''\<rparr>)
      else
        (case cards of
           [] \<Rightarrow> Inl TypeError
         | c # _ \<Rightarrow> Inr \<lparr>score = of_int (1000000 + cardValue c), name = ''High Card''\<rparr>))"

text \<open>
  The server's \<open>evaluateHand\<close> (\<^verbatim>\<open>server.js\<close>): the same ladder with the server's wheel test,
  and every score is the category's base plus one rank.
\<close>

definition server_evaluateHand :: "card list \<Rightarrow> card list \<Rightarrow> js_error + int handEval" where
  "server_evaluateHand holeCards communityCards =
     (let cards = sortDesc (holeCards @ communityCards);
          quads = quadsOf cards;
          trips = tripsOf cards;
          pairs = pairsOf cards;
          flush = isFlush cards;
          straight = server_isStraight cards;
          sf = (case flush of None \<Rightarrow> None | Some fc \<Rightarrow> server_isStraight fc)
      in
      if flush \<noteq> None \<and> truthy sf then
        Inr \<lparr>score = 9000000 + the sf, name = ''Straight Flush''\<rparr>
      else if quads \<noteq> None then
        Inr \<lparr>score = 8000000 + the quads, name = ''Four of a Kind''\<rparr>
      else if 0 < length trips \<and> (2 \<le> length trips \<or> 0 < length pairs) then
        Inr \<lparr>score = 7000000 + trips ! 0, name = ''Full House''\<rparr>
      else if flush \<noteq> None then
        (case the flush of
           [] \<Rightarrow> Inl TypeError
         | c # _ \<Rightarrow> Inr \<lparr>score = 6000000 + cardValue c, name = ''Flush''\<rparr>)
      else if truthy straight then
        Inr \<lparr>score = 5000000 + the straight, name = ''Straight''\<rparr>
      else if 0 < length trips then
        Inr \<lparr>score = 4000000 + trips ! 0, name = ''Three of a Kind''\<rparr>
      else if 2 \<le> length pairs then
        Inr \<lparr>score = 3000000 + pairs ! 0, name = ''Two Pair''\<rparr>
      else if 0 < length pairs then
        Inr \<lparr>score = 2000000 + pairs ! 0, name = ''One Pair''\<rparr>
      else
        (case cards of
           [] \<Rightarrow> Inl TypeError
         | c # _ \<Rightarrow> Inr \<lparr>score = 1000000 + cardValue c, name = ''High Card''\<rparr>))"

text \<open>
  The hands on which the two wheel tests differ: an ace, a 5 and a 2 are there, and the 4
  or the 3 is not.
\<close>

definition looseWheel :: "card list \<Rightarrow> bool" where
  "looseWheel cs =
     (let vs = cardValue ` set cs in
      14 \<in> vs \<and> 5 \<in> vs \<and> 2 \<in> vs \<and> (4 \<notin> vs \<or> 3 \<notin> vs))"

section \<open>The table of the server\<close>

text \<open>
  \<^verbatim>\<open>src/types.ts\<close>: \<open>PlayerStatus\<close>, \<open>GamePhase\<close>, \<open>Player\<close> and \<open>GameState\<close>. The fields \<open>id\<close> and
  \<open>name\<close> of a player are \<open>pid\<close> and \<open>pname\<close> here. The type of a player's id is a
  parameter: the server stores the socket's id, the client a number. A card taken from an
  empty deck is \<open>undefined\<close> (\<open>None\<close>), so the hole cards and the board are lists of
  optional cards.

  Chip amounts are integers here. The program holds them as doubles: a sum or a difference
  of two integers is the exact one when it is below \<open>2^53\<close> in magnitude, and is rounded
  beyond that. So the definitions below compute what the program computes as long as
  every number it works out stays in that range; the predicates \<open>exactAction\<close> and
  \<open>exactMoney\<close> state such a range, and the general theorems on amounts have them as
  hypotheses. A stack, a bet or an amount that is not an integer (a fraction, or the
  \<open>NaN\<close> of a raise sent without an amount) is outside the model. Seat indices are
  never below \<open>-1\<close>, so the program's \<open>%\<close> is \<open>mod\<close> on them.
\<close>

datatype PlayerStatus = EMPTY | SITTING_OUT | PLAYING | FOLDED | ALL_IN | BUSTED

datatype GamePhase = IDLE | PREFLOP | FLOP | TURN | RIVER | SHOWDOWN

record 'i player =
  pid :: 'i
  pname :: string
  chips :: int
  bet :: int
  status :: PlayerStatus
  cards :: "card option list"
  isDealer :: bool
  isSmallBlind :: bool
  isBigBlind :: bool
  hasActed :: bool

record 'i winner =
  playerId :: 'i
  handName :: string
  amount :: int

record 'i gameState =
  pot :: int
  communityCards :: "card option list"
  deck :: "card list"
  phase :: GamePhase
  currentPlayerIndex :: int
  dealerIndex :: int
  minBet :: int
  currentBet :: int
  lastRaiserIndex :: "int option"
  winners :: "'i winner list"
  logs :: "string list"

text \<open>
  The server's two globals, \<open>players\<close> (an array of nine seats, \<open>null\<close> when free) and
  \<open>gameState\<close>. Every handler takes the table and returns the table it leaves;
  \<open>broadcastState\<close> changes nothing and is left out.
\<close>

record 'i table =
  players :: "'i player option list"
  gameState :: "'i gameState"

definition BIG_BLIND :: int where
  "BIG_BLIND = 20"

definition SMALL_BLIND :: int where
  "SMALL_BLIND = 10"

text \<open>The table when the server starts (lines 36 to 49).\<close>

definition initialTable :: "'i table" where
  "initialTable =
     \<lparr>players = replicate 9 None,
      gameState = \<lparr>pot = 0, communityCards = [], deck = [], phase = IDLE,
        currentPlayerIndex = - 1, dealerIndex = - 1, minBet = BIG_BLIND, currentBet = 0,
        lastRaiserIndex = None, winners = [], logs = [''Waiting for players...'']\<rparr>\<rparr>"

text \<open>\<open>players[i]\<close> for a number \<open>i\<close>: \<open>undefined\<close> outside the array.\<close>

definition seatAt :: "'a option list \<Rightarrow> int \<Rightarrow> 'a option" where
  "seatAt ps i = (if 0 \<le> i \<and> nat i < length ps then ps ! nat i else None)"

text \<open>The seats that hold a player, in seat order, alone and with their indices.\<close>

fun seated :: "'a option list \<Rightarrow> 'a list" where
  "seated [] = []"
| "seated (None # ps) = seated ps"
| "seated (Some p # ps) = p # seated ps"

fun seatedFrom :: "nat \<Rightarrow> 'a option list \<Rightarrow> (nat \<times> 'a) list" where
  "seatedFrom i [] = []"
| "seatedFrom i (None # ps) = seatedFrom (Suc i) ps"
| "seatedFrom i (Some p # ps) = (i, p) # seatedFrom (Suc i) ps"

text \<open>\<open>p.status !== 'FOLDED' && p.status !== 'BUSTED'\<close>.\<close>

definition isActive :: "'i player \<Rightarrow> bool" where
  "isActive p = (status p \<noteq> FOLDED \<and> status p \<noteq> BUSTED)"

text \<open>Decimal printing of an integer, as a template literal does it.\<close>

fun showNat :: "nat \<Rightarrow> string" where
  "showNat n =
     (if n < 10 then [''0123456789'' ! n]
      else showNat (n div 10) @ [''0123456789'' ! (n mod 10)])"

definition showInt :: "int \<Rightarrow> string" where
  "showInt i = (if i < 0 then CHR ''-'' # showNat (nat (- i)) else showNat (nat i))"

text \<open>\<open>addLog\<close>: the log keeps its last fifty lines.\<close>

definition addLog :: "string \<Rightarrow> 'i gameState \<Rightarrow> 'i gameState" where
  "addLog msg g = (let l = logs g @ [msg] in g\<lparr>logs := (if 50 < length l then tl l else l)\<rparr>)"

subsection \<open>\<open>sit\<close> and \<open>standUp\<close>\<close>

text \<open>
  \<open>sit\<close>, for a seat index that is an array index. Writing past the end of the array
  lengthens it, the seats in between staying free. \<open>sid\<close> is the id of the socket that sent
  the message.
\<close>

definition putSeat :: "nat \<Rightarrow> 'a \<Rightarrow> 'a option list \<Rightarrow> 'a option list" where
  "putSeat i p ps =
     (if i < length ps then ps[i := Some p]
      else ps @ replicate (i - length ps) None @ [Some p])"

definition sit :: "'i \<Rightarrow> nat \<Rightarrow> int \<Rightarrow> string \<Rightarrow> 'i table \<Rightarrow> 'i table" where
  "sit sid seatIndex buyIn nm t =
     (case seatAt (players t) (int seatIndex) of
        Some occupant \<Rightarrow> t
      | None \<Rightarrow>
          \<lparr>players = putSeat seatIndex
             \<lparr>pid = sid,
              pname = (if nm = [] then ''Player '' @ showInt (int seatIndex + 1) else nm),
              chips = buyIn, bet = 0, status = SITTING_OUT, cards = [],
              isDealer = False, isSmallBlind = False, isBigBlind = False, hasActed = False\<rparr>
             (players t),
           gameState = addLog (nm @ '' sat at Seat '' @ showInt (int seatIndex + 1) @ ''.'')
             (gameState t)\<rparr>)"

definition standUp :: "'i \<Rightarrow> nat \<Rightarrow> 'i table \<Rightarrow> 'i table" where
  "standUp sid seatIndex t =
     (case seatAt (players t) (int seatIndex) of
        None \<Rightarrow> t
      | Some p \<Rightarrow>
          (if pid p = sid then
             \<lparr>players = (players t)[seatIndex := None],
              gameState = addLog (pname p @ '' stood up.'') (gameState t)\<rparr>
           else t))"

subsection \<open>\<open>action\<close>\<close>

text \<open>
  The branch of the handler for the action's name (lines 326 to 352): the acting player
  \<open>p\<close> of seat \<open>idx\<close> and the game state after it, with the log line. A name other than the
  four known ones changes nothing and logs the empty string.
\<close>

definition actionMove ::
  "string \<Rightarrow> int \<Rightarrow> int \<Rightarrow> 'i player \<Rightarrow> 'i gameState \<Rightarrow> 'i player \<times> 'i gameState \<times> string" where
  "actionMove act amt idx p g =
     (let callAmount = currentBet g - bet p in
      if act = ''fold'' then (p\<lparr>status := FOLDED\<rparr>, g, pname p @ '' folds.'')
      else if act = ''check'' then (p, g, pname p @ '' checks.'')
      else if act = ''call'' then
        (let a = min callAmount (chips p);
             p1 = p\<lparr>chips := chips p - a, bet := bet p + a\<rparr>;
             p2 = (if chips p1 = 0 then p1\<lparr>status := ALL_IN\<rparr> else p1)
         in (p2, g, pname p @ '' calls.''))
      else if act = ''raise'' then
        (let totalBet = currentBet g + amt;
             needed = totalBet - bet p;
             p1 = (if chips p \<le> needed
                   then p\<lparr>bet := bet p + chips p, chips := 0, status := ALL_IN\<rparr>
                   else p\<lparr>chips := chips p - needed, bet := bet p + needed\<rparr>);
             lg = (if chips p \<le> needed then pname p @ '' goes All-in!''
                   else pname p @ '' raises to '' @ showInt (bet p1) @ ''.'')
         in (p1, g\<lparr>currentBet := bet p1, lastRaiserIndex := Some idx\<rparr>, lg))
      else (p, g, []))"

text \<open>
  The loop that looks for the next seat to act (lines 363 to 367). It leaves when the seat
  \<open>next\<close> holds a player whose status is PLAYING, or when \<open>next\<close> comes back to \<open>idx\<close>; it
  does not leave otherwise, and the result is then \<open>None\<close>.
\<close>

definition skipSeat :: "'i player option list \<Rightarrow> int \<Rightarrow> bool" where
  "skipSeat ps i =
     (case seatAt ps i of
        None \<Rightarrow> True
      | Some p \<Rightarrow> status p \<noteq> PLAYING \<or> status p = ALL_IN)"

partial_function (option) nextToAct :: "'i player option list \<Rightarrow> int \<Rightarrow> int \<Rightarrow> int option" where
  "nextToAct ps idx next =
     (if skipSeat ps next
      then (let n = (next + 1) mod 9 in if n = idx then Some n else nextToAct ps idx n)
      else Some next)"

declare nextToAct.simps [code]

text \<open>
  The handler of \<open>action\<close>. The result is the table it leaves, with \<open>True\<close> when it has
  scheduled \<open>nextPhase\<close> (\<open>setTimeout(nextPhase, 500)\<close>); it is \<open>None\<close> when the loop above
  does not end.
\<close>

definition action :: "string \<Rightarrow> int \<Rightarrow> 'i table \<Rightarrow> ('i table \<times> bool) option" where
  "action act amt t =
     (let idx = currentPlayerIndex (gameState t) in
      if idx = - 1 then Some (t, False)
      else
        (case seatAt (players t) idx of
           None \<Rightarrow> Some (t, False)
         | Some p \<Rightarrow>
             (case actionMove act amt idx p (gameState t) of
                (p1, g1, lg) \<Rightarrow>
                  (let ps = (players t)[nat idx := Some (p1\<lparr>hasActed := True\<rparr>)];
                       g2 = addLog lg g1;
                       active = filter isActive (seated ps);
                       allActed = list_all (\<lambda>pl. status pl = ALL_IN \<or>
                                     (bet pl = currentBet g2 \<and> hasActed pl)) active
                   in if allActed \<and> 0 < length active
                      then Some (\<lparr>players = ps, gameState = g2\<rparr>, True)
                      else
                        (case nextToAct ps idx ((idx + 1) mod 9) of
                           None \<Rightarrow> None
                         | Some next \<Rightarrow>
                             Some (\<lparr>players = ps,
                                    gameState = g2\<lparr>currentPlayerIndex := next\<rparr>\<rparr>, False))))))"

subsection \<open>The end of a betting round\<close>

text \<open>
  The first step of \<open>nextPhase\<close> (lines 124 to 132): every bet goes to the pot, and every
  seated player's bet and has-acted flag are reset.
\<close>

definition collectBets :: "'i table \<Rightarrow> 'i table" where
  "collectBets t =
     (let roundPot = sum_list (map bet (seated (players t))) in
      \<lparr>players = map (map_option (\<lambda>p. p\<lparr>bet := 0, hasActed := False\<rparr>)) (players t),
       gameState = (gameState t)\<lparr>pot := pot (gameState t) + roundPot\<rparr>\<rparr>)"

text \<open>
  \<open>handleShowdown(true)\<close>: the first seat that is neither folded nor busted takes the
  pot.
\<close>

definition handleShowdown :: "bool \<Rightarrow> 'i table \<Rightarrow> 'i table" where
  "handleShowdown foldedWin t =
     (if foldedWin then
        (case find (\<lambda>(i, p). isActive p) (seatedFrom 0 (players t)) of
           None \<Rightarrow> t
         | Some (i, w) \<Rightarrow>
             (let g = gameState t in
              \<lparr>players = (players t)[i := Some (w\<lparr>chips := chips w + pot g\<rparr>)],
               gameState =
                 (addLog (pname w @ '' wins $'' @ showInt (pot g) @ '' (opponents folded).'')
                    (g\<lparr>winners := [\<lparr>playerId = pid w, handName = ''Opponents Folded'',
                                     amount = pot g\<rparr>]\<rparr>))
                 \<lparr>pot := 0, phase := SHOWDOWN, currentPlayerIndex := - 1\<rparr>\<rparr>))
      else t)"

subsection \<open>\<open>computeWinners\<close>\<close>

text \<open>
  The evaluator reads \<open>.value\<close> of every card, so a card that is \<open>undefined\<close> makes it
  throw a \<open>TypeError\<close>.
\<close>

fun definedCards :: "'a option list \<Rightarrow> 'a list option" where
  "definedCards [] = Some []"
| "definedCards (None # xs) = None"
| "definedCards (Some x # xs) = map_option ((#) x) (definedCards xs)"

definition server_evaluateCards ::
  "card option list \<Rightarrow> card option list \<Rightarrow> js_error + int handEval" where
  "server_evaluateCards hs bs =
     (case definedCards hs of
        None \<Rightarrow> Inl TypeError
      | Some h \<Rightarrow>
          (case definedCards bs of
             None \<Rightarrow> Inl TypeError
           | Some b \<Rightarrow> server_evaluateHand h b))"

text \<open>
  The objects \<open>{playerId, score, name, index}\<close> of \<open>evals\<close>. \<open>players.indexOf(p)\<close> looks the
  player object up by identity, and every seat holds an object of its own, so the index of
  an entry is the seat the player was read from.
\<close>

record ('i, 'n) handEntry =
  entryPlayerId :: 'i
  entryScore :: 'n
  entryName :: string
  entryIndex :: nat

fun server_evals ::
  "card option list \<Rightarrow> (nat \<times> 'i player) list \<Rightarrow> js_error + ('i, int) handEntry list" where
  "server_evals board [] = Inr []"
| "server_evals board ((i, p) # rest) =
     (case server_evaluateCards (cards p) board of
        Inl e \<Rightarrow> Inl e
      | Inr ev \<Rightarrow>
          (case server_evals board rest of
             Inl e \<Rightarrow> Inl e
           | Inr es \<Rightarrow>
               Inr (\<lparr>entryPlayerId = pid p, entryScore = score ev, entryName = name ev,
                     entryIndex = i\<rparr> # es)))"

text \<open>\<open>players[i].chips += a\<close>.\<close>

definition creditSeat :: "int \<Rightarrow> nat \<Rightarrow> 'i player option list \<Rightarrow> 'i player option list" where
  "creditSeat a i ps =
     (case seatAt ps (int i) of
        None \<Rightarrow> ps
      | Some p \<Rightarrow> ps[i := Some (p\<lparr>chips := chips p + a\<rparr>)])"

text \<open>\<open>xs.join(sep)\<close>.\<close>

fun joinWith :: "string \<Rightarrow> string list \<Rightarrow> string" where
  "joinWith sep [] = []"
| "joinWith sep [x] = x"
| "joinWith sep (x # y # xs) = x @ sep @ joinWith sep (y # xs)"

definition chipSummary :: "'i player option list \<Rightarrow> string" where
  "chipSummary ps = joinWith '' | '' (map (\<lambda>p. pname p @ '': $'' @ showInt (chips p)) (seated ps))"

text \<open>
  The winners of a sorted, non-empty list of entries: those whose score is the first
  entry's.
\<close>

definition bestEntries :: "('i, 'n::linorder) handEntry list \<Rightarrow> ('i, 'n) handEntry list" where
  "bestEntries es =
     (case es of
        [] \<Rightarrow> []
      | e # rest \<Rightarrow> filter (\<lambda>x. entryScore x = entryScore e) es)"

definition computeWinners :: "'i table \<Rightarrow> js_error + 'i table" where
  "computeWinners t =
     (let g = gameState t;
          candidates = filter (\<lambda>(i, p). isActive p) (seatedFrom 0 (players t))
      in case server_evals (communityCards g) candidates of
           Inl e \<Rightarrow> Inl e
         | Inr evals \<Rightarrow>
             (if length evals = 0 then Inr t
              else
                (let ws = bestEntries (sort_key (\<lambda>e. - entryScore e) evals);
                     splitAmt = pot g div int (length ws);
                     ps = fold (\<lambda>w. creditSeat splitAmt (entryIndex w)) ws (players t);
                     g1 = g\<lparr>winners := winners g @
                            map (\<lambda>w. \<lparr>playerId = entryPlayerId w, handName = entryName w,
                                       amount = splitAmt\<rparr>) ws,
                           pot := 0, currentPlayerIndex := - 1\<rparr>
                 in Inr \<lparr>players = ps,
                         gameState = addLog (''End of Hand. Stats: '' @ chipSummary ps) g1\<rparr>)))"

subsection \<open>\<open>nextPhase\<close>\<close>

text \<open>\<open>deck.pop()\<close>, and several of them in a row.\<close>

definition pop :: "'a list \<Rightarrow> 'a option \<times> 'a list" where
  "pop xs = (if xs = [] then (None, []) else (Some (last xs), butlast xs))"

fun popN :: "nat \<Rightarrow> 'a list \<Rightarrow> 'a option list \<times> 'a list" where
  "popN 0 d = ([], d)"
| "popN (Suc n) d =
     (case pop d of (c, d1) \<Rightarrow> (case popN n d1 of (cs, d2) \<Rightarrow> (c # cs, d2)))"

definition dealBoard :: "nat \<Rightarrow> 'i gameState \<Rightarrow> 'i gameState" where
  "dealBoard n g =
     (case popN n (deck g) of
        (cs, d) \<Rightarrow> g\<lparr>communityCards := communityCards g @ cs, deck := d\<rparr>)"

text \<open>
  The loop of lines 165 to 168, which has no other exit than a seat whose player is
  PLAYING.
\<close>

definition notPlaying :: "'i player option list \<Rightarrow> int \<Rightarrow> bool" where
  "notPlaying ps i =
     (case seatAt ps i of
        None \<Rightarrow> True
      | Some p \<Rightarrow> status p \<noteq> PLAYING)"

partial_function (option) firstPlaying :: "'i player option list \<Rightarrow> int \<Rightarrow> int option" where
  "firstPlaying ps i = (if notPlaying ps i then firstPlaying ps ((i + 1) mod 9) else Some i)"

declare firstPlaying.simps [code]

definition nextPhase :: "'i table \<Rightarrow> (js_error + 'i table) option" where
  "nextPhase t0 =
     (let t = collectBets t0; g = gameState t in
      if length (filter isActive (seated (players t))) = 1
      then Some (Inr (handleShowdown True t))
      else if phase g = RIVER
      then Some (computeWinners (t\<lparr>gameState := addLog ''Showdown!'' (g\<lparr>phase := SHOWDOWN\<rparr>)\<rparr>))
      else if phase g = SHOWDOWN then Some (Inr t)
      else
        (let g1 = (if phase g = PREFLOP
                   then addLog ''Flop dealt.'' ((dealBoard 3 g)\<lparr>phase := FLOP\<rparr>)
                   else if phase g = FLOP
                   then addLog ''Turn dealt.'' ((dealBoard 1 g)\<lparr>phase := TURN\<rparr>)
                   else if phase g = TURN
                   then addLog ''River dealt.'' ((dealBoard 1 g)\<lparr>phase := RIVER\<rparr>)
                   else g);
             g2 = g1\<lparr>currentBet := 0, lastRaiserIndex := None, minBet := 0\<rparr>
         in case firstPlaying (players t) ((dealerIndex g + 1) mod 9) of
              None \<Rightarrow> None
            | Some nextIdx \<Rightarrow> Some (Inr (t\<lparr>gameState := g2\<lparr>currentPlayerIndex := nextIdx\<rparr>\<rparr>))))"

subsection \<open>\<open>startGame\<close>\<close>

text \<open>
  \<open>shuffled\<close> is the deck that \<open>shuffleDeck(createDeck())\<close> returns: the shuffle draws from
  \<open>Math.random\<close>, so its result is an argument here.
\<close>

definition resetForHand :: "'i player \<Rightarrow> 'i player" where
  "resetForHand p =
     p\<lparr>status := PLAYING, cards := [], bet := 0, hasActed := False,
       isDealer := False, isSmallBlind := False, isBigBlind := False\<rparr>"

text \<open>\<open>xs.indexOf(x)\<close>, \<open>None\<close> for \<open>-1\<close>.\<close>

fun indexOf :: "'a list \<Rightarrow> 'a \<Rightarrow> nat option" where
  "indexOf [] x = None"
| "indexOf (y # ys) x = (if y = x then Some 0 else map_option Suc (indexOf ys x))"

text \<open>An assignment to fields of \<open>players[i]\<close>.\<close>

definition modSeat :: "nat \<Rightarrow> ('a \<Rightarrow> 'a) \<Rightarrow> 'a option list \<Rightarrow> 'a option list" where
  "modSeat i f ps =
     (case seatAt ps (int i) of
        None \<Rightarrow> ps
      | Some p \<Rightarrow> ps[i := Some (f p)])"

text \<open>\<open>players[i].cards = [deck.pop(), deck.pop()]\<close> for the seats of \<open>activeIdxs\<close> in turn.\<close>

fun dealHoleCards ::
  "nat list \<Rightarrow> 'i player option list \<Rightarrow> card list \<Rightarrow> 'i player option list \<times> card list" where
  "dealHoleCards [] ps d = (ps, d)"
| "dealHoleCards (i # rest) ps d =
     (case popN 2 d of
        (cs, d1) \<Rightarrow> dealHoleCards rest (modSeat i (\<lambda>p. p\<lparr>cards := cs\<rparr>) ps) d1)"

definition startGame :: "card list \<Rightarrow> 'i table \<Rightarrow> 'i table" where
  "startGame shuffled t =
     (let g = gameState t;
          ps0 = map (map_option (\<lambda>p. if 0 < chips p then resetForHand p else p)) (players t);
          activeIdxs = map fst (filter (\<lambda>(i, p). 0 < chips p) (seatedFrom 0 (players t)));
          n = length activeIdxs
      in if n < 2
         then \<lparr>players = ps0,
               gameState = addLog ''Need at least 2 active players to start.'' g\<rparr>
         else
           (let currPtr = (case indexOf (map int activeIdxs) (dealerIndex g) of
                             None \<Rightarrow> 0 | Some k \<Rightarrow> k);
                nextDealer = (if dealerIndex g = - 1 then activeIdxs ! 0
                              else activeIdxs ! ((currPtr + 1) mod n));
                dealerPtr = (case indexOf activeIdxs nextDealer of None \<Rightarrow> 0 | Some k \<Rightarrow> k);
                sbPtr = (if n = 2 then dealerPtr else (dealerPtr + 1) mod n);
                bbPtr = (if n = 2 then (sbPtr + 1) mod 2 else (dealerPtr + 2) mod n);
                sbIdx = activeIdxs ! sbPtr;
                bbIdx = activeIdxs ! bbPtr;
                ps1 = modSeat nextDealer (\<lambda>p. p\<lparr>isDealer := True\<rparr>) ps0;
                ps2 = modSeat sbIdx
                        (\<lambda>p. p\<lparr>chips := chips p - SMALL_BLIND, bet := SMALL_BLIND,
                               isSmallBlind := True\<rparr>) ps1;
                ps3 = modSeat bbIdx
                        (\<lambda>p. p\<lparr>chips := chips p - BIG_BLIND, bet := BIG_BLIND,
                               isBigBlind := True\<rparr>) ps2;
                firstActPtr = (bbPtr + 1) mod n
            in case dealHoleCards activeIdxs ps3 shuffled of
                 (ps4, d) \<Rightarrow>
                   \<lparr>players = ps4,
                    gameState =
                      addLog (''New Hand. Blinds '' @ showInt SMALL_BLIND @ ''/'' @
                              showInt BIG_BLIND @ ''.'')
                        (g\<lparr>deck := d, communityCards := [], pot := 0, winners := [],
                           logs := [], dealerIndex := int nextDealer,
                           currentPlayerIndex := int (activeIdxs ! firstActPtr),
                           phase := PREFLOP, minBet := BIG_BLIND, currentBet := BIG_BLIND,
                           lastRaiserIndex := Some (int bbIdx)\<rparr>)\<rparr>))"

section \<open>The offline engine of the client\<close>

text \<open>
  The offline logic of \<^verbatim>\<open>App.tsx\<close> keeps \<open>players\<close> and \<open>gameState\<close> as React state; a handler
  is the function from the state it reads to the state its \<open>setPlayers\<close> and
  \<open>setGameState\<close> calls leave. The client's \<open>addLog\<close> appends without a bound.
\<close>

definition client_addLog :: "string \<Rightarrow> 'i gameState \<Rightarrow> 'i gameState" where
  "client_addLog msg g = g\<lparr>logs := logs g @ [msg]\<rparr>"

text \<open>
  The branch of \<open>handleAction\<close> for the action's name (lines 475 to 500): the player after
  it and the log line, or \<open>None\<close> where the handler returns (a check while a call is owed).
\<close>

definition handleMove :: "string \<Rightarrow> int \<Rightarrow> 'i player \<Rightarrow> 'i gameState \<Rightarrow> ('i player \<times> string) option" where
  "handleMove act amt p g =
     (let callAmount = currentBet g - bet p in
      if act = ''fold'' then Some (p\<lparr>status := FOLDED\<rparr>, pname p @ '' folds.'')
      else if act = ''check'' then
        (if 0 < callAmount then None else Some (p, pname p @ '' checks.''))
      else if act = ''call'' then
        (let actualCall = min callAmount (chips p);
             p1 = p\<lparr>chips := chips p - actualCall, bet := bet p + actualCall\<rparr>;
             p2 = (if chips p1 = 0 then p1\<lparr>status := ALL_IN\<rparr> else p1)
         in Some (p2, pname p @ '' calls '' @ showInt actualCall @ ''.''))
      else if act = ''raise'' then
        (let totalBet = currentBet g + amt;
             addedChips = totalBet - bet p;
             p1 = (if chips p \<le> addedChips
                   then p\<lparr>bet := bet p + chips p, chips := 0, status := ALL_IN\<rparr>
                   else p\<lparr>chips := chips p - addedChips, bet := bet p + addedChips\<rparr>);
             lg = (if chips p \<le> addedChips then pname p @ '' goes All-In!''
                   else pname p @ '' raises to '' @ showInt (bet p1) @ ''.'')
         in Some (p1, lg))
      else Some (p, []))"

definition handleAction :: "string \<Rightarrow> int \<Rightarrow> 'i table \<Rightarrow> 'i table" where
  "handleAction act amt t =
     (let g = gameState t; idx = currentPlayerIndex g in
      if idx = - 1 then t
      else
        (case seatAt (players t) idx of
           None \<Rightarrow> t
         | Some player \<Rightarrow>
             (case handleMove act amt player g of
                None \<Rightarrow> t
              | Some (p1, newLog) \<Rightarrow>
                  (let p = p1\<lparr>hasActed := True\<rparr>;
                       g1 = client_addLog newLog g;
                       raised = (act = ''raise'' \<or> (act = ''call'' \<and> currentBet g1 < bet p))
                   in \<lparr>players = (players t)[nat idx := Some p],
                       gameState =
                         g1\<lparr>currentBet := (if raised then bet p else currentBet g1),
                            lastRaiserIndex := (if raised then Some idx else lastRaiserIndex g1),
                            logs := logs g1 @ [newLog]\<rparr>\<rparr>))))"

text \<open>\<open>collectBetsToPot\<close>: the pair \<open>{updatedPlayers, roundPot}\<close>.\<close>

definition collectBetsToPot :: "'i player option list \<Rightarrow> 'i player option list \<times> int" where
  "collectBetsToPot currentPlayers =
     (map (map_option (\<lambda>p. p\<lparr>bet := 0, hasActed := False\<rparr>)) currentPlayers,
      sum_list (map bet (seated currentPlayers)))"

text \<open>
  The client's \<open>computeWinners(currentPlayers, board, totalPot)\<close>: the players with the
  winners' stacks credited, and the winner records it returns.
\<close>

definition evaluateCards ::
  "card option list \<Rightarrow> card option list \<Rightarrow> js_error + rat handEval" where
  "evaluateCards hs bs =
     (case definedCards hs of
        None \<Rightarrow> Inl TypeError
      | Some h \<Rightarrow>
          (case definedCards bs of
             None \<Rightarrow> Inl TypeError
           | Some b \<Rightarrow> evaluateHand h b))"

fun client_evals ::
  "card option list \<Rightarrow> (nat \<times> 'i player) list \<Rightarrow> js_error + ('i, rat) handEntry list" where
  "client_evals board [] = Inr []"
| "client_evals board ((i, p) # rest) =
     (case evaluateCards (cards p) board of
        Inl e \<Rightarrow> Inl e
      | Inr ev \<Rightarrow>
          (case client_evals board rest of
             Inl e \<Rightarrow> Inl e
           | Inr es \<Rightarrow>
               Inr (\<lparr>entryPlayerId = pid p, entryScore = score ev, entryName = name ev,
                     entryIndex = i\<rparr> # es)))"

definition client_computeWinners ::
  "'i player option list \<Rightarrow> card option list \<Rightarrow> int \<Rightarrow>
     js_error + ('i player option list \<times> 'i winner list)" where
  "client_computeWinners currentPlayers board totalPot =
     (let candidates = filter (\<lambda>(i, p). isActive p) (seatedFrom 0 currentPlayers)
      in case client_evals board candidates of
           Inl e \<Rightarrow> Inl e
         | Inr evaluations \<Rightarrow>
             (if length evaluations = 0 then Inr (currentPlayers, [])
              else
                (let winningEvals = bestEntries (sort_key (\<lambda>e. - entryScore e) evaluations);
                     splitAmount = totalPot div int (length winningEvals)
                 in Inr (fold (\<lambda>w. creditSeat splitAmount (entryIndex w)) winningEvals
                           currentPlayers,
                         map (\<lambda>w. \<lparr>playerId = entryPlayerId w, handName = entryName w,
                                    amount = splitAmount\<rparr>) winningEvals))))"

text \<open>
  The client's \<open>handleShowdown(currentPlayers, board, totalPot, foldedWin)\<close>, which does
  not read the board when \<open>foldedWin\<close> is set: the table its \<open>setPlayers\<close> and
  \<open>setGameState\<close> leave, which is the table \<open>t\<close> when it sets nothing.
\<close>

definition client_handleShowdown ::
  "'i player option list \<Rightarrow> card option list \<Rightarrow> int \<Rightarrow> bool \<Rightarrow> 'i table \<Rightarrow> 'i table" where
  "client_handleShowdown currentPlayers board totalPot foldedWin t =
     (if foldedWin then
        (case find (\<lambda>(i, p). isActive p) (seatedFrom 0 currentPlayers) of
           None \<Rightarrow> t
         | Some (wIdx, w) \<Rightarrow>
             (let uPlayers = currentPlayers[wIdx := Some (w\<lparr>chips := chips w + totalPot\<rparr>)];
                  prev = gameState t
              in \<lparr>players = uPlayers,
                  gameState = prev\<lparr>pot := 0, phase := SHOWDOWN,
                    winners := [\<lparr>playerId = pid w, handName = ''Opponents Folded'',
                                 amount = totalPot\<rparr>],
                    currentPlayerIndex := - 1,
                    logs := logs prev @
                      [pname w @ '' wins $'' @ showInt totalPot @ '' (opponents folded).'',
                       ''End of Hand Stats: '' @ chipSummary uPlayers]\<rparr>\<rparr>))
      else t)"

text \<open>
  The loop of the client's \<open>nextPhase\<close> that looks for the first seat to act: it gives up
  after ten steps (\<open>safety < 10\<close>). The first argument is the number of steps left.
\<close>

fun seekPlaying :: "nat \<Rightarrow> 'i player option list \<Rightarrow> int \<Rightarrow> int" where
  "seekPlaying 0 ps nextIdx = nextIdx"
| "seekPlaying (Suc k) ps nextIdx =
     (if notPlaying ps nextIdx then seekPlaying k ps ((nextIdx + 1) mod 9) else nextIdx)"

text \<open>
  The step of the switch on \<open>prev.phase\<close>: the board, the deck, the next phase and the log
  line. A deck that is too short leaves all of them as they were.
\<close>

definition client_deal ::
  "'i gameState \<Rightarrow> card option list \<times> card list \<times> GamePhase \<times> string" where
  "client_deal prev =
     (if phase prev = PREFLOP then
        (if 3 \<le> length (deck prev)
         then (case popN 3 (deck prev) of
                 (cs, d) \<Rightarrow> (communityCards prev @ cs, d, FLOP, ''Flop dealt.''))
         else (communityCards prev, deck prev, phase prev, []))
      else if phase prev = FLOP then
        (if 1 \<le> length (deck prev)
         then (case popN 1 (deck prev) of
                 (cs, d) \<Rightarrow> (communityCards prev @ cs, d, TURN, ''Turn dealt.''))
         else (communityCards prev, deck prev, phase prev, []))
      else if phase prev = TURN then
        (if 1 \<le> length (deck prev)
         then (case popN 1 (deck prev) of
                 (cs, d) \<Rightarrow> (communityCards prev @ cs, d, RIVER, ''River dealt.''))
         else (communityCards prev, deck prev, phase prev, []))
      else if phase prev = RIVER then
        (communityCards prev, deck prev, SHOWDOWN, ''Showdown!'')
      else (communityCards prev, deck prev, phase prev, []))"

text \<open>
  The client's \<open>nextPhase\<close> (lines 315 to 398): the table that its state updater and the
  \<open>setPlayers\<close> calls inside it leave, or the \<open>TypeError\<close> that \<open>computeWinners\<close> throws.
  At showdown the winners are paid from the pot with the round's bets, and the pot field
  of the state it returns is 0.
\<close>

definition client_nextPhase :: "'i table \<Rightarrow> js_error + 'i table" where
  "client_nextPhase t =
     (let prev = gameState t in
      case collectBetsToPot (players t) of
        (updatedPlayers, roundPot) \<Rightarrow>
          (let newPot = pot prev + roundPot;
               activeCount = length (filter isActive (seated updatedPlayers))
           in if activeCount = 1
              then Inr (client_handleShowdown updatedPlayers (communityCards prev) newPot True t)
              else
                (case client_deal prev of
                   (newCommunityCards, newDeck, nextPh, logMsg) \<Rightarrow>
                     (if nextPh = SHOWDOWN then
                        (case client_computeWinners updatedPlayers newCommunityCards newPot of
                           Inl e \<Rightarrow> Inl e
                         | Inr (ps, ws) \<Rightarrow>
                             Inr \<lparr>players = ps,
                                  gameState = prev\<lparr>pot := 0,
                                    communityCards := newCommunityCards, deck := newDeck,
                                    phase := SHOWDOWN, currentPlayerIndex := - 1,
                                    winners := ws,
                                    logs := logs prev @
                                      [logMsg, ''End of Hand Stats: '' @ chipSummary ps]\<rparr>\<rparr>)
                      else
                        Inr \<lparr>players = updatedPlayers,
                             gameState = prev\<lparr>pot := newPot,
                               communityCards := newCommunityCards, deck := newDeck,
                               phase := nextPh,
                               currentPlayerIndex :=
                                 seekPlaying 10 updatedPlayers ((dealerIndex prev + 1) mod 9),
                               minBet := 0, currentBet := 0, lastRaiserIndex := None,
                               logs := logs prev @ [logMsg]\<rparr>\<rparr>))))"

section \<open>Measures\<close>

text \<open>
  The chips at the table: the stacks and the bets of the seated players, and the pot.
\<close>

definition tableMoney :: "'i table \<Rightarrow> int" where
  "tableMoney t =
     sum_list (map (\<lambda>p. chips p + bet p) (seated (players t))) + pot (gameState t)"

text \<open>
  The range in which the handlers of an action compute exactly: the amount, the bet to
  match, and the stack and the bet of the seat to act are below \<open>2^51\<close> in magnitude. Every
  sum and difference the handlers work out from them (\<open>currentBet - bet\<close>,
  \<open>currentBet + amount\<close>, \<open>totalBet - bet\<close>, \<open>chips - needed\<close>, \<open>bet + chips\<close> and
  so on) is then below \<open>2^53\<close> in magnitude.
\<close>

definition exactAction :: "int \<Rightarrow> 'i table \<Rightarrow> bool" where
  "exactAction amt t =
     (let g = gameState t in
      \<bar>amt\<bar> < 2 ^ 51 \<and> \<bar>currentBet g\<bar> < 2 ^ 51 \<and>
      (case seatAt (players t) (currentPlayerIndex g) of
         None \<Rightarrow> True
       | Some p \<Rightarrow> \<bar>chips p\<bar> < 2 ^ 51 \<and> \<bar>bet p\<bar> < 2 ^ 51))"

text \<open>
  The range in which the sweep of the bets and the payout compute exactly: the magnitudes
  of all stacks, all bets and the pot are below \<open>2^53\<close> taken together. The running total
  of the bets, the pot with that total, the share (the floor of a quotient that is correctly
  rounded) and a stack with a share are then all below \<open>2^53\<close> in magnitude.
\<close>

definition exactMoney :: "'i table \<Rightarrow> bool" where
  "exactMoney t =
     (sum_list (map (\<lambda>p. \<bar>chips p\<bar> + \<bar>bet p\<bar>) (seated (players t))) + \<bar>pot (gameState t)\<bar>
        < 2 ^ 53)"

text \<open>
  The contenders of a showdown, with their seats: the \<open>candidates\<close> of \<open>computeWinners\<close>.
  A showdown is ready when there is a contender, the board and every contender's hole
  cards are all there (none is \<open>undefined\<close>), and every contender has a card to play.
\<close>

definition contenders :: "'i player option list \<Rightarrow> (nat \<times> 'i player) list" where
  "contenders ps = filter (\<lambda>(i, p). isActive p) (seatedFrom 0 ps)"

definition showdownReady :: "'i player option list \<Rightarrow> card option list \<Rightarrow> bool" where
  "showdownReady ps board =
     (contenders ps \<noteq> [] \<and> definedCards board \<noteq> None \<and>
      list_all (\<lambda>(i, p). definedCards (cards p) \<noteq> None \<and> cards p @ board \<noteq> []) (contenders ps))"

section \<open>Tables used as examples\<close>

text \<open>
  Ann, Bob and Cy sit at seats 0, 1 and 2 with 1000 chips each, and a hand starts; the deck
  is the one \<open>createDeck\<close> builds, one of the orders a shuffle can give. Ann has the
  button, Bob posts the small blind, Cy the big blind, and Ann is first to act.
\<close>

definition threeHanded :: "string table" where
  "threeHanded =
     startGame createDeck
       (sit ''c'' 2 1000 ''Cy'' (sit ''b'' 1 1000 ''Bob'' (sit ''a'' 0 1000 ''Ann'' initialTable)))"

text \<open>
  Heads-up: Ann at seat 0 has the button and the small blind and acts first, Bob at seat 1
  has the big blind.
\<close>

definition headsUp :: "string table" where
  "headsUp =
     startGame createDeck (sit ''b'' 1 1000 ''Bob'' (sit ''a'' 0 1000 ''Ann'' initialTable))"

section \<open>What the claims say of a raise and of a split pot\<close>

text \<open>
  The acting seat after \<open>raise(amt)\<close>, in the words of the specification: \<open>g\<close> and \<open>p\<close> are
  the game state and the acting player before the raise, \<open>p'\<close> and \<open>g'\<close> after it. When the
  chips needed to reach the target meet or exceed the stack, the whole stack and no more
  is moved to the bet and the seat is all-in; otherwise the bet is the target, and the bet
  to match and the last raiser are updated to this seat.
\<close>

definition raiseApplied ::
  "'i gameState \<Rightarrow> int \<Rightarrow> 'i player \<Rightarrow> 'i player \<Rightarrow> 'i gameState \<Rightarrow> bool" where
  "raiseApplied g amt p p' g' =
     (let target = currentBet g + amt; needed = target - bet p in
      if chips p \<le> needed
      then chips p' = 0 \<and> bet p' = bet p + chips p \<and> status p' = ALL_IN
      else bet p' = target \<and> chips p' = chips p - needed \<and> status p' = status p \<and>
           currentBet g' = target \<and> lastRaiserIndex g' = Some (currentPlayerIndex g))"

text \<open>The entries tied at the highest score, in seat order.\<close>

definition tiedEntries :: "('i, 'n::linorder) handEntry list \<Rightarrow> ('i, 'n) handEntry list" where
  "tiedEntries evals = filter (\<lambda>e. entryScore e = Max (entryScore ` set evals)) evals"

text \<open>
  An even split of \<open>totalPot\<close> among the seats of the entries \<open>tied\<close>: \<open>ps\<close> are the players
  before and \<open>ps'\<close> after, \<open>rs\<close> the winner records. Each tied seat's stack grows by the
  floor of the quotient and nothing else changes at any seat; there is one record with
  that amount for each tied entry; the stacks grow by the pot less the remainder of the
  division in total.
\<close>

definition evenSplit ::
  "('i, 'n) handEntry list \<Rightarrow> int \<Rightarrow> 'i player option list \<Rightarrow> 'i player option list \<Rightarrow>
     'i winner list \<Rightarrow> bool" where
  "evenSplit tied totalPot ps ps' rs =
     (let share = totalPot div int (length tied) in
      length ps' = length ps \<and>
      (\<forall>i < length ps.
         ps' ! i = (if i \<in> entryIndex ` set tied
                    then map_option (\<lambda>p. p\<lparr>chips := chips p + share\<rparr>) (ps ! i)
                    else ps ! i)) \<and>
      rs = map (\<lambda>w. \<lparr>playerId = entryPlayerId w, handName = entryName w, amount = share\<rparr>) tied \<and>
      sum_list (map chips (seated ps')) =
        sum_list (map chips (seated ps)) + totalPot - totalPot mod int (length tied))"

text \<open>
  A showdown with a pot of 41: the board is the ace-high straight, which Ann and Bob both
  play, and Cy has folded.
\<close>

definition seatedPlayer ::
  "string \<Rightarrow> string \<Rightarrow> int \<Rightarrow> PlayerStatus \<Rightarrow> card list \<Rightarrow> string player" where
  "seatedPlayer i n c st cs =
     \<lparr>pid = i, pname = n, chips = c, bet = 0, status = st, cards = map Some cs,
      isDealer = False, isSmallBlind = False, isBigBlind = False, hasActed = False\<rparr>"

definition tiedShowdown :: "string table" where
  "tiedShowdown =
     \<lparr>players =
        [Some (seatedPlayer ''a'' ''Ann'' 100 PLAYING [mkCard HEARTS TWO, mkCard DIAMONDS THREE]),
         Some (seatedPlayer ''b'' ''Bob'' 100 ALL_IN [mkCard SPADES TWO, mkCard CLUBS THREE]),
         Some (seatedPlayer ''c'' ''Cy'' 100 FOLDED [mkCard CLUBS ACE, mkCard SPADES ACE]),
         None, None, None, None, None, None],
      gameState = \<lparr>pot = 41,
        communityCards = map Some [mkCard HEARTS ACE, mkCard DIAMONDS KING, mkCard CLUBS QUEEN,
          mkCard SPADES JACK, mkCard HEARTS TEN],
        deck = [], phase = SHOWDOWN, currentPlayerIndex = 0, dealerIndex = 0, minBet = 0,
        currentBet = 0, lastRaiserIndex = None, winners = [], logs = []\<rparr>\<rparr>"


text \<open>
  The same hands on the river, before the bets are swept: the pot is 21, and Ann and Bob
  have bet 10 each.
\<close>

definition tiedRiver :: "string table" where
  "tiedRiver =
     \<lparr>players =
        [Some ((seatedPlayer ''a'' ''Ann'' 100 PLAYING [mkCard HEARTS TWO, mkCard DIAMONDS THREE])
                 \<lparr>bet := 10, hasActed := True\<rparr>),
         Some ((seatedPlayer ''b'' ''Bob'' 100 PLAYING [mkCard SPADES TWO, mkCard CLUBS THREE])
                 \<lparr>bet := 10, hasActed := True\<rparr>),
         Some (seatedPlayer ''c'' ''Cy'' 100 FOLDED [mkCard CLUBS ACE, mkCard SPADES ACE]),
         None, None, None, None, None, None],
      gameState = \<lparr>pot = 21,
        communityCards = map Some [mkCard HEARTS ACE, mkCard DIAMONDS KING, mkCard CLUBS QUEEN,
          mkCard SPADES JACK, mkCard HEARTS TEN],
        deck = [], phase = RIVER, currentPlayerIndex = 1, dealerIndex = 0, minBet = 0,
        currentBet = 10, lastRaiserIndex = Some 0, winners = [], logs = []\<rparr>\<rparr>"

text \<open>
  A showdown with a pot of 100 on the board A, 8, 7, 3, 2: Ann holds ace-king and Bob
  ace-queen, a pair of aces each, and Ann's king is the better kicker.
\<close>

definition kickerShowdown :: "string table" where
  "kickerShowdown =
     \<lparr>players =
        [Some (seatedPlayer ''a'' ''Ann'' 100 PLAYING [mkCard SPADES ACE, mkCard HEARTS KING]),
         Some (seatedPlayer ''b'' ''Bob'' 100 PLAYING [mkCard CLUBS ACE, mkCard DIAMONDS QUEEN]),
         None, None, None, None, None, None, None],
      gameState = \<lparr>pot = 100,
        communityCards = map Some [mkCard HEARTS ACE, mkCard DIAMONDS EIGHT, mkCard CLUBS SEVEN,
          mkCard SPADES THREE, mkCard HEARTS TWO],
        deck = [], phase = SHOWDOWN, currentPlayerIndex = 0, dealerIndex = 0, minBet = 0,
        currentBet = 0, lastRaiserIndex = None, winners = [], logs = []\<rparr>\<rparr>"

section \<open>Properties of the evaluators\<close>

lemma set_uniqueValues: "set (uniqueValues cs) = cardValue ` set cs"
  by (simp add: uniqueValues_def)

lemma isStraight_agree: "\<not> looseWheel cs \<Longrightarrow> server_isStraight cs = isStraight cs"
  by (auto simp: server_isStraight_def isStraight_def looseWheel_def Let_def set_uniqueValues
      split: option.splits)

lemma set_sortDesc: "set (sortDesc cs) = set cs"
  by (simp add: sortDesc_def)

lemma length_sortDesc: "length (sortDesc cs) = length cs"
  by (simp add: sortDesc_def)

lemma looseWheel_sortDesc: "looseWheel (sortDesc cs) = looseWheel cs"
  by (simp add: looseWheel_def set_sortDesc)

subsection \<open>The suit counts of \<open>isFlush\<close>\<close>

lemma map_of_bumpKey:
  "map_of (bumpKey k m) = (map_of m)(k \<mapsto> (case map_of m k of None \<Rightarrow> 1 | Some n \<Rightarrow> n + 1))"
  by (induction m) (auto simp: fun_eq_iff)

lemma keys_bumpKey: "set (map fst (bumpKey k m)) = insert k (set (map fst m))"
  by (induction m) (force split: if_splits)+

lemma distinct_bumpKey: "distinct (map fst m) \<Longrightarrow> distinct (map fst (bumpKey k m))"
proof (induction m)
  case Nil
  then show ?case by simp
next
  case (Cons a m)
  obtain k' n where a: "a = (k', n)" by (cases a)
  show ?case
  proof (cases "k' = k")
    case True
    with Cons.prems a show ?thesis by simp
  next
    case False
    have "k' \<notin> set (map fst (bumpKey k m))"
      using Cons.prems a False by (simp only: keys_bumpKey) auto
    with Cons a False show ?thesis by simp
  qed
qed

lemma fold_bumpKey:
  "distinct (map fst m) \<Longrightarrow>
   distinct (map fst (fold bumpKey ks m)) \<and>
   map_of (fold bumpKey ks m) k =
     (case map_of m k of
        None \<Rightarrow> (if count_list ks k = 0 then None else Some (count_list ks k))
      | Some j \<Rightarrow> Some (j + count_list ks k))"
proof (induction ks arbitrary: m)
  case Nil
  then show ?case by (simp split: option.splits)
next
  case (Cons a ks)
  have d: "distinct (map fst (bumpKey a m))" using Cons.prems by (rule distinct_bumpKey)
  show ?case
    using Cons.IH [OF d] by (auto simp: map_of_bumpKey split: option.splits)
qed

text \<open>Every entry of \<open>suits\<close> holds the number of cards of its suit.\<close>

lemma suitCounts_entry:
  assumes "(s, n) \<in> set (suitCounts cs)"
  shows "n = length (filter (\<lambda>c. suit c = s) cs) \<and> 0 < n"
proof -
  have d: "distinct (map fst (suitCounts cs))"
    using fold_bumpKey [of "[]" "map suit cs" s] by (simp add: suitCounts_def)
  have m: "map_of (suitCounts cs) s =
          (if count_list (map suit cs) s = 0 then None else Some (count_list (map suit cs) s))"
    using fold_bumpKey [of "[]" "map suit cs" s] by (simp add: suitCounts_def)
  from d assms have "map_of (suitCounts cs) s = Some n" by simp
  with m have "n = count_list (map suit cs) s \<and> 0 < n" by (auto split: if_splits)
  moreover have "count_list (map suit cs) s = length (filter (\<lambda>c. suit c = s) cs)"
    by (induction cs) auto
  ultimately show ?thesis by auto
qed

lemma isFlush_Some:
  assumes "isFlush cs = Some fc"
  shows "\<exists>s. fc = take 5 (filter (\<lambda>c. suit c = s) cs) \<and>
             5 \<le> length (filter (\<lambda>c. suit c = s) cs)"
proof -
  from assms obtain s n where fnd: "find (\<lambda>(s, n). 5 \<le> n) (suitCounts cs) = Some (s, n)"
    and fc: "fc = take 5 (filter (\<lambda>c. suit c = s) cs)"
    by (auto simp: isFlush_def split: option.splits)
  from fnd have "(s, n) \<in> set (suitCounts cs)" "5 \<le> n"
    by (auto simp: find_Some_iff dest: nth_mem)
  with suitCounts_entry [of s n cs] fc show ?thesis by auto
qed

lemma isFlush_length: "isFlush cs = Some fc \<Longrightarrow> length fc = 5"
  by (auto dest!: isFlush_Some)

subsection \<open>Client and server evaluator\<close>

text \<open>
  Where the two engines do agree: for two hole cards and at most five board cards, when
  neither the hand nor the five cards that \<open>isFlush\<close> selects hold an ace, a 5 and a 2
  without both a 4 and a 3, both return a result with the same category name, and with the
  same score when the category is Straight Flush, Flush, Straight or High Card. (The
  condition is sufficient, not necessary.)
\<close>

lemma evaluateHand_same_category:
  assumes h: "length hole = 2" and b: "length board \<le> 5"
    and w: "\<not> looseWheel (hole @ board)"
    and wf: "case isFlush (sortDesc (hole @ board)) of
               None \<Rightarrow> True | Some fc \<Rightarrow> \<not> looseWheel fc"
  shows "\<exists>c s. evaluateHand hole board = Inr c \<and>
           server_evaluateHand hole board = Inr s \<and>
           name c = name s \<and>
           (name s \<in> {''Straight Flush'', ''Flush'', ''Straight'', ''High Card''} \<longrightarrow>
              score c = of_int (score s))"
proof -
  define hand where "hand = sortDesc (hole @ board)"
  have ne: "hand \<noteq> []"
    using h length_sortDesc [of "hole @ board"] by (auto simp: hand_def)
  have st: "server_isStraight hand = isStraight hand"
    using w by (simp add: hand_def isStraight_agree looseWheel_sortDesc)
  show ?thesis
  proof (cases "isFlush hand")
    case None
    then show ?thesis
      unfolding evaluateHand_def server_evaluateHand_def Let_def hand_def [symmetric]
      using ne by (simp add: st split: list.splits)
  next
    case (Some fc)
    then have "length fc = 5" by (rule isFlush_length)
    then have fc: "fc \<noteq> []" by auto
    have sf: "server_isStraight fc = isStraight fc"
      using wf Some by (simp add: hand_def isStraight_agree)
    show ?thesis
      unfolding evaluateHand_def server_evaluateHand_def Let_def hand_def [symmetric]
      using ne fc by (simp add: st sf Some split: list.splits)
  qed
qed

text \<open>
  C1. The server's \<open>evaluateHand\<close> leaves out the kickers and second ranks that the
  client's adds, so the two are not the same function. With four aces and a king the
  client scores 8,000,000 + 14 * 100 + 13 and the server 8,000,000 + 14. On the board
  A, 8, 7, 3, 2 the client ranks ace-king (2,001,413.87) above ace-queen (2,001,412.87),
  and the server gives both 2,000,014.
\<close>

theorem server_evaluateHand_drops_kickers:
  "evaluateHand [mkCard HEARTS ACE, mkCard DIAMONDS ACE]
      [mkCard CLUBS ACE, mkCard SPADES ACE, mkCard HEARTS KING]
     = Inr \<lparr>score = 8001413, name = ''Four of a Kind''\<rparr> \<and>
   server_evaluateHand [mkCard HEARTS ACE, mkCard DIAMONDS ACE]
      [mkCard CLUBS ACE, mkCard SPADES ACE, mkCard HEARTS KING]
     = Inr \<lparr>score = 8000014, name = ''Four of a Kind''\<rparr> \<and>
   evaluateHand [mkCard SPADES ACE, mkCard HEARTS KING]
      [mkCard HEARTS ACE, mkCard DIAMONDS EIGHT, mkCard CLUBS SEVEN, mkCard SPADES THREE,
       mkCard HEARTS TWO]
     = Inr \<lparr>score = 200141387 / 100, name = ''One Pair''\<rparr> \<and>
   evaluateHand [mkCard CLUBS ACE, mkCard DIAMONDS QUEEN]
      [mkCard HEARTS ACE, mkCard DIAMONDS EIGHT, mkCard CLUBS SEVEN, mkCard SPADES THREE,
       mkCard HEARTS TWO]
     = Inr \<lparr>score = 200141287 / 100, name = ''One Pair''\<rparr> \<and>
   server_evaluateHand [mkCard SPADES ACE, mkCard HEARTS KING]
      [mkCard HEARTS ACE, mkCard DIAMONDS EIGHT, mkCard CLUBS SEVEN, mkCard SPADES THREE,
       mkCard HEARTS TWO]
     = Inr \<lparr>score = 2000014, name = ''One Pair''\<rparr> \<and>
   server_evaluateHand [mkCard CLUBS ACE, mkCard DIAMONDS QUEEN]
      [mkCard HEARTS ACE, mkCard DIAMONDS EIGHT, mkCard CLUBS SEVEN, mkCard SPADES THREE,
       mkCard HEARTS TWO]
     = Inr \<lparr>score = 2000014, name = ''One Pair''\<rparr>"
  by code_simp

text \<open>
  At the showdown of these two hands for a pot of 100 the server splits the pot, 50 to
  each, and the client pays the 100 to Ann.
\<close>

lemma kicker_showdown_payout:
  "map_sum id (\<lambda>t'. (map (map_option chips) (players t'), map amount (winners (gameState t'))))
     (computeWinners kickerShowdown) =
     Inr ([Some 150, Some 150, None, None, None, None, None, None, None], [50, 50]) \<and>
   map_sum id (\<lambda>(ps, ws). (map (map_option chips) ps, map amount ws))
     (client_computeWinners (players kickerShowdown) (communityCards (gameState kickerShowdown))
        (pot (gameState kickerShowdown))) =
     Inr ([Some 200, Some 100, None, None, None, None, None, None, None], [100])"
  by code_simp

text \<open>
  C2. The server's wheel test accepts A-5-2 without the 4 and the 3: on A, 5 with the
  board 2, 9, K of mixed suits, where no five values are consecutive, the server reports a
  Straight scored 5,000,005. The client reports High Card there.
\<close>

theorem server_evaluateHand_phantom_wheel:
  "server_evaluateHand [mkCard HEARTS ACE, mkCard DIAMONDS FIVE]
      [mkCard CLUBS TWO, mkCard SPADES NINE, mkCard HEARTS KING]
     = Inr \<lparr>score = 5000005, name = ''Straight''\<rparr> \<and>
   evaluateHand [mkCard HEARTS ACE, mkCard DIAMONDS FIVE]
      [mkCard CLUBS TWO, mkCard SPADES NINE, mkCard HEARTS KING]
     = Inr \<lparr>score = 1000014, name = ''High Card''\<rparr>"
  by code_simp

text \<open>
  C3. Only the five highest cards of the flush suit are tested for a straight. The hand
  K, 9, 8, 7, 6, 5 of hearts with the 2 of clubs holds the straight flush 9-8-7-6-5, and both
  engines report a Flush scored 6,000,013: less than the 6,000,014 of the ace-high flush
  A, J, 9, 7, 3 of spades, a hand with no straight flush.
\<close>

theorem evaluateHand_misses_straight_flush:
  "set (map (mkCard HEARTS) [NINE, EIGHT, SEVEN, SIX, FIVE]) \<subseteq>
     set ([mkCard HEARTS KING, mkCard HEARTS NINE] @
          [mkCard HEARTS EIGHT, mkCard HEARTS SEVEN, mkCard HEARTS SIX, mkCard HEARTS FIVE,
           mkCard CLUBS TWO]) \<and>
   evaluateHand [mkCard HEARTS KING, mkCard HEARTS NINE]
      [mkCard HEARTS EIGHT, mkCard HEARTS SEVEN, mkCard HEARTS SIX, mkCard HEARTS FIVE,
       mkCard CLUBS TWO]
     = Inr \<lparr>score = 6000013, name = ''Flush''\<rparr> \<and>
   evaluateHand [mkCard SPADES ACE, mkCard SPADES JACK]
      [mkCard SPADES NINE, mkCard SPADES SEVEN, mkCard SPADES THREE, mkCard DIAMONDS TWO,
       mkCard CLUBS FOUR]
     = Inr \<lparr>score = 6000014, name = ''Flush''\<rparr> \<and>
   server_evaluateHand [mkCard HEARTS KING, mkCard HEARTS NINE]
      [mkCard HEARTS EIGHT, mkCard HEARTS SEVEN, mkCard HEARTS SIX, mkCard HEARTS FIVE,
       mkCard CLUBS TWO]
     = Inr \<lparr>score = 6000013, name = ''Flush''\<rparr> \<and>
   server_evaluateHand [mkCard SPADES ACE, mkCard SPADES JACK]
      [mkCard SPADES NINE, mkCard SPADES SEVEN, mkCard SPADES THREE, mkCard DIAMONDS TWO,
       mkCard CLUBS FOUR]
     = Inr \<lparr>score = 6000014, name = ''Flush''\<rparr>"
  by code_simp

section \<open>Properties of the table\<close>

subsection \<open>Money\<close>

lemma seatAt_SomeD: "seatAt ps i = Some p \<Longrightarrow> 0 \<le> i \<and> nat i < length ps \<and> ps ! nat i = Some p"
  by (auto simp: seatAt_def split: if_splits)

lemma sum_seated_update:
  fixes f :: "'a \<Rightarrow> int"
  shows "i < length ps \<Longrightarrow> ps ! i = Some p \<Longrightarrow>
    sum_list (map f (seated (ps[i := Some q]))) = sum_list (map f (seated ps)) - f p + f q"
proof (induction ps arbitrary: i)
  case Nil
  then show ?case by simp
next
  case (Cons a ps)
  show ?case
  proof (cases i)
    case 0
    with Cons.prems show ?thesis by simp
  next
    case (Suc j)
    with Cons.prems have "sum_list (map f (seated (ps[j := Some q]))) =
        sum_list (map f (seated ps)) - f p + f q"
      by (intro Cons.IH) auto
    with Suc show ?thesis by (cases a) auto
  qed
qed

lemma actionMove_money:
  "actionMove act amt idx p g = (p1, g1, lg) \<Longrightarrow>
     chips p1 + bet p1 = chips p + bet p \<and> pot g1 = pot g"
  by (auto simp: actionMove_def Let_def split: if_splits)

lemma pot_addLog: "pot (addLog msg g) = pot g"
  by (simp add: addLog_def Let_def)

lemma action_money:
  assumes "action act amt t = Some (t', sched)"
  shows "tableMoney t' = tableMoney t"
proof (cases "currentPlayerIndex (gameState t) = - 1")
  case True
  with assms show ?thesis by (simp add: action_def)
next
  case False
  show ?thesis
  proof (cases "seatAt (players t) (currentPlayerIndex (gameState t))")
    case None
    with assms False show ?thesis by (simp add: action_def)
  next
    case (Some p)
    obtain p1 g1 lg where mv: "actionMove act amt (currentPlayerIndex (gameState t)) p (gameState t) = (p1, g1, lg)"
      by (cases "actionMove act amt (currentPlayerIndex (gameState t)) p (gameState t)") auto
    define idx where "idx = nat (currentPlayerIndex (gameState t))"
    define ps where "ps = (players t)[idx := Some (p1\<lparr>hasActed := True\<rparr>)]"
    from seatAt_SomeD [OF Some] have i: "idx < length (players t)" "players t ! idx = Some p"
      by (simp_all add: idx_def)
    have m: "chips p1 + bet p1 = chips p + bet p" "pot g1 = pot g" if "g = gameState t" for g
      using actionMove_money [OF mv] that by simp_all
    have s: "sum_list (map (\<lambda>p. chips p + bet p) (seated ps)) =
             sum_list (map (\<lambda>p. chips p + bet p) (seated (players t)))"
      unfolding ps_def using sum_seated_update [OF i, of "\<lambda>p. chips p + bet p" "p1\<lparr>hasActed := True\<rparr>"] m(1)
      by simp
    from assms False Some mv have "players t' = ps \<and> pot (gameState t') = pot g1"
      by (auto simp: action_def Let_def ps_def idx_def pot_addLog split: if_splits option.splits)
    with s m(2) show ?thesis by (simp add: tableMoney_def)
  qed
qed

lemma nextToAct_returns:
  assumes "0 \<le> idx" "idx < 9"
  shows "0 \<le> next \<Longrightarrow> next < 9 \<Longrightarrow> next \<noteq> idx \<Longrightarrow> (idx - next) mod 9 = int k \<Longrightarrow>
         \<exists>n. nextToAct ps idx next = Some n"
proof (induction k arbitrary: "next")
  case 0
  then have "(idx - next) mod 9 = 0" by simp
  then have "9 dvd (idx - next)" by presburger
  moreover have "- 9 < idx - next" "idx - next < 9" using 0 assms by simp_all
  ultimately have "idx - next = 0" by presburger
  with 0 show ?case by simp
next
  case (Suc k)
  let ?n = "(next + 1) mod 9"
  show ?case
  proof (cases "?n = idx")
    case True
    then show ?thesis by (subst nextToAct.simps) (simp add: Let_def)
  next
    case False
    define j where "j = int k"
    have j: "(idx - next) mod 9 = j + 1" using Suc.prems(4) by (simp add: j_def)
    have "(idx - ?n) mod 9 = (idx - (next + 1)) mod 9"
      by (simp add: mod_diff_right_eq)
    also have "\<dots> = ((idx - next) mod 9 - 1) mod 9"
      by (simp add: mod_diff_left_eq algebra_simps)
    also have "\<dots> = j mod 9" by (simp add: j)
    also have "\<dots> = j"
    proof -
      have "j + 1 < 9" using j pos_mod_bound [of 9 "idx - next"] by simp
      then show ?thesis by (simp add: j_def)
    qed
    finally have "(idx - ?n) mod 9 = j" .
    moreover have "0 \<le> ?n" "?n < 9" by simp_all
    ultimately obtain n where "nextToAct ps idx ?n = Some n"
      using Suc.IH [of ?n] False by (auto simp: j_def)
    then show ?thesis by (subst nextToAct.simps) (simp add: Let_def)
  qed
qed

lemma action_returns:
  assumes "currentPlayerIndex (gameState t) < 9"
  shows "action act amt t \<noteq> None"
proof (cases "currentPlayerIndex (gameState t) = - 1")
  case True
  then show ?thesis by (auto simp: action_def)
next
  case False
  show ?thesis
  proof (cases "seatAt (players t) (currentPlayerIndex (gameState t))")
    case None
    with False show ?thesis by (auto simp: action_def)
  next
    case (Some p)
    let ?idx = "currentPlayerIndex (gameState t)"
    from seatAt_SomeD [OF Some] have i: "0 \<le> ?idx" by simp
    have r: "0 \<le> (?idx + 1) mod 9" "(?idx + 1) mod 9 < 9" by simp_all
    have r3: "(?idx + 1) mod 9 \<noteq> ?idx"
    proof (cases "?idx = 8")
      case True
      then show ?thesis by simp
    next
      case False
      with i assms have "(?idx + 1) mod 9 = ?idx + 1" by simp
      then show ?thesis by simp
    qed
    have "0 \<le> (?idx - (?idx + 1) mod 9) mod 9" by simp
    then obtain k where k: "(?idx - (?idx + 1) mod 9) mod 9 = int k"
      using nonneg_int_cases by blast
    obtain p1 g1 lg where mv: "actionMove act amt ?idx p (gameState t) = (p1, g1, lg)"
      by (cases "actionMove act amt ?idx p (gameState t)") auto
    define ps where "ps = (players t)[nat ?idx := Some (p1\<lparr>hasActed := True\<rparr>)]"
    obtain n where n: "nextToAct ps ?idx ((?idx + 1) mod 9) = Some n"
      using nextToAct_returns [OF i assms r r3 k] by blast
    show ?thesis
      unfolding action_def Let_def using False
      by (auto simp: Some mv ps_def [symmetric] n)
  qed
qed

lemma collectBets_money: "tableMoney (collectBets t) = tableMoney t"
proof -
  have "sum_list (map (\<lambda>p. chips p + bet p) (seated (map (map_option (\<lambda>p. p\<lparr>bet := 0, hasActed := False\<rparr>)) ps)))
        + sum_list (map bet (seated ps)) = sum_list (map (\<lambda>p. chips p + bet p) (seated ps))"
    for ps :: "'a player option list"
    by (induction ps rule: seated.induct) auto
  from this [of "players t"] show ?thesis
    by (simp add: tableMoney_def collectBets_def Let_def)
qed

lemma handleMove_money:
  "handleMove act amt p g = Some (p1, lg) \<Longrightarrow> chips p1 + bet p1 = chips p + bet p"
  by (auto simp: handleMove_def Let_def split: if_splits)

lemma handleAction_money: "tableMoney (handleAction act amt t) = tableMoney t"
proof (cases "currentPlayerIndex (gameState t) = - 1")
  case True
  then show ?thesis by (simp add: handleAction_def)
next
  case False
  show ?thesis
  proof (cases "seatAt (players t) (currentPlayerIndex (gameState t))")
    case None
    with False show ?thesis by (simp add: handleAction_def)
  next
    case (Some p)
    show ?thesis
    proof (cases "handleMove act amt p (gameState t)")
      case None
      with False Some show ?thesis by (simp add: handleAction_def)
    next
      case mv: (Some r)
      obtain p1 lg where r: "r = (p1, lg)" by (cases r)
      define idx where "idx = nat (currentPlayerIndex (gameState t))"
      from seatAt_SomeD [OF Some] have i: "idx < length (players t)" "players t ! idx = Some p"
        by (simp_all add: idx_def)
      have m: "chips p1 + bet p1 = chips p + bet p"
        using handleMove_money mv r by blast
      have "sum_list (map (\<lambda>p. chips p + bet p)
               (seated ((players t)[idx := Some (p1\<lparr>hasActed := True\<rparr>)]))) =
            sum_list (map (\<lambda>p. chips p + bet p) (seated (players t)))"
        using sum_seated_update [OF i, of "\<lambda>p. chips p + bet p" "p1\<lparr>hasActed := True\<rparr>"] m
        by simp
      with False Some mv r show ?thesis
        by (simp add: handleAction_def Let_def tableMoney_def idx_def client_addLog_def)
    qed
  qed
qed

lemma collectBetsToPot_money:
  "collectBetsToPot (players t) = (ups, roundPot) \<Longrightarrow>
     tableMoney \<lparr>players = ups, gameState = (gameState t)\<lparr>pot := pot (gameState t) + roundPot\<rparr>\<rparr>
       = tableMoney t"
  using collectBets_money [of t]
  by (auto simp: collectBetsToPot_def collectBets_def tableMoney_def Let_def)

text \<open>
  C4. The chips at the table (the stacks and the current-round bets of the seated
  players, plus the pot) are the same before and after every action of the server and of
  the client, whatever the action's name and the phase, and before and after the sweep of
  the bets into the pot (the first step of the server's \<open>nextPhase\<close>, the client's
  \<open>collectBetsToPot\<close>). This holds where the program's doubles are exact: for an action,
  when the amount, the bet to match and the acting seat's stack and bet are below \<open>2^51\<close>
  in magnitude (\<open>exactAction\<close>); for the sweep, when the stacks, the bets and the pot are
  below \<open>2^53\<close> in magnitude taken together (\<open>exactMoney\<close>). The server's handler returns
  whenever the turn pointer is below nine.
\<close>

theorem money_conservation:
  "(exactAction amt t \<longrightarrow>
      (\<forall>t' sched. action act amt t = Some (t', sched) \<longrightarrow> tableMoney t' = tableMoney t) \<and>
      (currentPlayerIndex (gameState t) < 9 \<longrightarrow> action act amt t \<noteq> None) \<and>
      tableMoney (handleAction act amt t) = tableMoney t) \<and>
   (exactMoney t \<longrightarrow>
      tableMoney (collectBets t) = tableMoney t \<and>
      (\<forall>ups roundPot. collectBetsToPot (players t) = (ups, roundPot) \<longrightarrow>
         tableMoney \<lparr>players = ups,
                     gameState = (gameState t)\<lparr>pot := pot (gameState t) + roundPot\<rparr>\<rparr>
           = tableMoney t))"
  using action_money [of act amt t] action_returns [of t act amt] collectBets_money [of t]
    handleAction_money [of act amt t] collectBetsToPot_money [of t]
  by blast

text \<open>
  The theorem on the three-handed table, where 3000 chips are in play: a raise by 40 and
  the sweep both leave 3000.
\<close>

theorem money_conservation_witness:
  "exactAction 40 threeHanded \<and> exactMoney threeHanded \<and>
   tableMoney threeHanded = 3000 \<and>
   currentPlayerIndex (gameState threeHanded) < 9 \<and>
   (\<exists>t' sched. action ''raise'' 40 threeHanded = Some (t', sched) \<and> tableMoney t' = 3000) \<and>
   tableMoney (collectBets threeHanded) = 3000 \<and>
   tableMoney (handleAction ''raise'' 40 threeHanded) = 3000"
proof -
  have e: "exactAction 40 threeHanded" by code_simp
  have x: "exactMoney threeHanded" by code_simp
  have m: "tableMoney threeHanded = 3000" by code_simp
  have i: "currentPlayerIndex (gameState threeHanded) < 9" by code_simp
  note c = money_conservation [of 40 threeHanded "''raise''"]
  from c e i obtain t' sched where a: "action ''raise'' 40 threeHanded = Some (t', sched)"
    by fastforce
  with c e have "tableMoney t' = 3000" by (simp add: m)
  with a c m i e x show ?thesis by simp
qed

subsection \<open>\<open>sit\<close> at an occupied seat\<close>

text \<open>
  C10. When the seat of \<open>seatIndex\<close> holds a player, the server's \<open>sit\<close> returns the
  table as it was: no player and no field of the game state changes.
\<close>

theorem sit_occupied_unchanged:
  "seatAt (players t) (int seatIndex) = Some occupant \<Longrightarrow> sit sid seatIndex buyIn nm t = t"
  by (simp add: sit_def)

text \<open>The theorem at Bob's seat of the three-handed table.\<close>

theorem sit_occupied_unchanged_witness:
  "map_option pname (seatAt (players threeHanded) (int 1)) = Some ''Bob'' \<and>
   sit ''z'' 1 500 ''Zed'' threeHanded = threeHanded"
proof -
  have n: "map_option pname (seatAt (players threeHanded) (int 1)) = Some ''Bob''"
    by code_simp
  then obtain occupant where "seatAt (players threeHanded) (int 1) = Some occupant"
    by auto
  from sit_occupied_unchanged [OF this] n show ?thesis by simp
qed

subsection \<open>A check while a call is owed\<close>

text \<open>
  C5. The server's handler has no test in its \<open>check\<close> branch. Heads-up before the flop,
  Ann has bet 10 and the bet to match is 20; her check is applied: she is marked as
  having acted, the line is logged, and the turn passes from seat 0 to seat 1. The client's
  \<open>handleAction\<close> leaves the same table unchanged.
\<close>

theorem server_check_applied_when_call_owed:
  "map_option bet (seatAt (players headsUp) 0) = Some 10 \<and>
   currentBet (gameState headsUp) = 20 \<and>
   currentPlayerIndex (gameState headsUp) = 0 \<and>
   map_option hasActed (seatAt (players headsUp) 0) = Some False \<and>
   map_option (\<lambda>(t, sched).
       (sched, currentPlayerIndex (gameState t), map_option hasActed (seatAt (players t) 0),
        last (logs (gameState t))))
     (action ''check'' 0 headsUp) = Some (False, 1, Some True, ''Ann checks.'') \<and>
   handleAction ''check'' 0 headsUp = headsUp"
  by code_simp

text \<open>
  The client's guard, for every table: while the seat to act owes a call, the client's
  \<open>handleAction\<close> returns the table unchanged on a check.
\<close>

lemma handleAction_check_rejected:
  assumes "seatAt (players t) (currentPlayerIndex (gameState t)) = Some p"
    and "bet p < currentBet (gameState t)"
  shows "handleAction ''check'' amt t = t"
  using assms by (simp add: handleAction_def handleMove_def Let_def)

subsection \<open>Posting a blind larger than the stack\<close>

text \<open>
  C6. The server's \<open>startGame\<close> subtracts the blind without taking the minimum with the
  stack. Ann sits at seat 1 with 5 chips and Bob at seat 4 with 1000; Ann has the small
  blind, and after \<open>startGame\<close> her stack is -5, her bet 10 and her status PLAYING.
\<close>

theorem server_blind_makes_stack_negative:
  "map (map_option (\<lambda>p. (pname p, chips p, bet p, status p, isSmallBlind p, isBigBlind p)))
     (players (startGame createDeck
        (sit ''b'' 4 1000 ''Bob'' (sit ''a'' 1 5 ''Ann'' (initialTable :: string table))))) =
   [None, Some (''Ann'', - 5, 10, PLAYING, True, False), None, None,
    Some (''Bob'', 980, 20, PLAYING, False, True), None, None, None, None]"
  by code_simp

subsection \<open>The last player left in the hand\<close>

text \<open>
  C8. Three-handed before the flop, Ann folds and then Bob folds. Cy, the big blind, is the
  only player left, and she has not acted: the server schedules no \<open>nextPhase\<close>, the phase
  stays PREFLOP, the turn pointer is set to Cy's seat, and the 30 chips that were bet are
  not paid to her.
\<close>

theorem server_hand_goes_on_with_one_player:
  "map_option (\<lambda>(t, sched).
       (sched, length (filter isActive (seated (players t))), phase (gameState t),
        currentPlayerIndex (gameState t), pot (gameState t), winners (gameState t),
        map (map_option (\<lambda>p. (pname p, chips p, bet p, status p))) (players t)))
     (case action ''fold'' 0 threeHanded of
        None \<Rightarrow> None
      | Some (t1, sched1) \<Rightarrow> action ''fold'' 0 t1) =
   Some (False, 1, PREFLOP, 2, 0, [],
     [Some (''Ann'', 1000, 0, FOLDED), Some (''Bob'', 990, 10, FOLDED),
      Some (''Cy'', 980, 20, PLAYING), None, None, None, None, None, None])"
  by code_simp

text \<open>
  When Cy then checks, she has acted and matched the bet: the handler schedules
  \<open>nextPhase\<close>, which sweeps the 30 chips into the pot, pays them to her and ends the hand
  with an empty board.
\<close>

lemma server_hand_ends_after_last_player_acts:
  "map_option (\<lambda>(t, sched). (sched,
       map_option (map_sum id (\<lambda>t'. (phase (gameState t'), currentPlayerIndex (gameState t'),
          pot (gameState t'), communityCards (gameState t'),
          map amount (winners (gameState t')),
          map (map_option (\<lambda>p. (pname p, chips p, bet p))) (players t'))))
         (nextPhase t)))
     (case action ''fold'' 0 threeHanded of
        None \<Rightarrow> None
      | Some (t1, sched1) \<Rightarrow>
          (case action ''fold'' 0 t1 of
             None \<Rightarrow> None
           | Some (t2, sched2) \<Rightarrow> action ''check'' 0 t2)) =
   Some (True, Some (Inr (SHOWDOWN, - 1, 0, [], [30],
     [Some (''Ann'', 1000, 0), Some (''Bob'', 990, 0), Some (''Cy'', 1010, 0),
      None, None, None, None, None, None])))"
  by code_simp

subsection \<open>A raise\<close>

lemma addLog_fields:
  "currentBet (addLog msg g) = currentBet g"
  "lastRaiserIndex (addLog msg g) = lastRaiserIndex g"
  by (simp_all add: addLog_def Let_def)

lemma actionMove_raise:
  "actionMove ''raise'' amt idx p g = (p1, g1, lg) \<Longrightarrow> idx = currentPlayerIndex g \<Longrightarrow>
     raiseApplied g amt p (p1\<lparr>hasActed := True\<rparr>) g1"
  by (auto simp: actionMove_def raiseApplied_def Let_def split: if_splits)

lemma raiseApplied_cong:
  "raiseApplied g amt p p' g1 \<Longrightarrow> currentBet g2 = currentBet g1 \<Longrightarrow>
     lastRaiserIndex g2 = lastRaiserIndex g1 \<Longrightarrow> raiseApplied g amt p p' g2"
  by (simp add: raiseApplied_def Let_def)

lemma action_raise:
  assumes s: "seatAt (players t) (currentPlayerIndex (gameState t)) = Some p"
    and a: "action ''raise'' amt t = Some (t', sched)"
  shows "\<exists>p'. seatAt (players t') (currentPlayerIndex (gameState t)) = Some p' \<and>
           raiseApplied (gameState t) amt p p' (gameState t')"
proof -
  let ?idx = "currentPlayerIndex (gameState t)"
  from seatAt_SomeD [OF s] have i: "0 \<le> ?idx" "nat ?idx < length (players t)" by simp_all
  then have n1: "?idx \<noteq> - 1" by simp
  obtain p1 g1 lg where mv: "actionMove ''raise'' amt ?idx p (gameState t) = (p1, g1, lg)"
    by (cases "actionMove ''raise'' amt ?idx p (gameState t)") auto
  have r: "raiseApplied (gameState t) amt p (p1\<lparr>hasActed := True\<rparr>) g1"
    using actionMove_raise [OF mv] by simp
  from a have pl: "players t' = (players t)[nat ?idx := Some (p1\<lparr>hasActed := True\<rparr>)]"
    and g: "currentBet (gameState t') = currentBet g1"
           "lastRaiserIndex (gameState t') = lastRaiserIndex g1"
    unfolding action_def Let_def using n1
    by (auto simp: s mv addLog_fields split: if_splits option.splits)
  have "seatAt (players t') ?idx = Some (p1\<lparr>hasActed := True\<rparr>)"
    using i by (simp add: pl seatAt_def)
  with raiseApplied_cong [OF r g] show ?thesis by blast
qed

lemma handleAction_raise:
  assumes s: "seatAt (players t) (currentPlayerIndex (gameState t)) = Some p"
  shows "\<exists>p'. seatAt (players (handleAction ''raise'' amt t)) (currentPlayerIndex (gameState t))
               = Some p' \<and>
           raiseApplied (gameState t) amt p p' (gameState (handleAction ''raise'' amt t))"
proof -
  let ?idx = "currentPlayerIndex (gameState t)"
  from seatAt_SomeD [OF s] have i: "0 \<le> ?idx" "nat ?idx < length (players t)" by simp_all
  then have n1: "?idx \<noteq> - 1" by simp
  obtain p1 lg where mv: "handleMove ''raise'' amt p (gameState t) = Some (p1, lg)"
    by (simp add: handleMove_def Let_def)
  then have r: "raiseApplied (gameState t) amt p (p1\<lparr>hasActed := True\<rparr>)
      ((gameState t)\<lparr>currentBet := bet p1, lastRaiserIndex := Some ?idx\<rparr>)"
    by (auto simp: handleMove_def raiseApplied_def Let_def split: if_splits)
  have pl: "players (handleAction ''raise'' amt t) =
        (players t)[nat ?idx := Some (p1\<lparr>hasActed := True\<rparr>)]"
    and g: "currentBet (gameState (handleAction ''raise'' amt t)) = bet p1"
           "lastRaiserIndex (gameState (handleAction ''raise'' amt t)) = Some ?idx"
    unfolding handleAction_def Let_def using n1
    by (simp_all add: s mv client_addLog_def)
  have "seatAt (players (handleAction ''raise'' amt t)) ?idx = Some (p1\<lparr>hasActed := True\<rparr>)"
    using i by (simp add: pl seatAt_def)
  moreover have "raiseApplied (gameState t) amt p (p1\<lparr>hasActed := True\<rparr>)
      (gameState (handleAction ''raise'' amt t))"
    by (rule raiseApplied_cong [OF r]) (simp_all add: g)
  ultimately show ?thesis by blast
qed

text \<open>
  C7. When the seat to act holds the player \<open>p\<close>, and the amount, the bet to match and
  the player's stack and bet are below \<open>2^51\<close> in magnitude (\<open>exactAction\<close>, the range in
  which the program's doubles are exact), a raise by \<open>amt\<close> leaves that seat as the claim
  says, on the server and on the client: if the chips needed to reach the target (the bet
  to match plus \<open>amt\<close>) meet or exceed the stack, the stack is 0, the bet has grown by
  exactly the old stack and the status is ALL_IN; otherwise the bet is the target, the
  stack has shrunk by what was needed, and the bet to match and the last raiser are this
  seat's. The server's handler returns whenever the turn pointer is below nine.
\<close>

theorem raise_applied:
  assumes "seatAt (players t) (currentPlayerIndex (gameState t)) = Some p"
    and "exactAction amt t"
  shows "(\<forall>t' sched. action ''raise'' amt t = Some (t', sched) \<longrightarrow>
            (\<exists>p'. seatAt (players t') (currentPlayerIndex (gameState t)) = Some p' \<and>
                  raiseApplied (gameState t) amt p p' (gameState t'))) \<and>
         (currentPlayerIndex (gameState t) < 9 \<longrightarrow> action ''raise'' amt t \<noteq> None) \<and>
         (\<exists>p'. seatAt (players (handleAction ''raise'' amt t)) (currentPlayerIndex (gameState t))
                  = Some p' \<and>
               raiseApplied (gameState t) amt p p' (gameState (handleAction ''raise'' amt t)))"
  using action_raise [OF assms(1)] action_returns [of t "''raise''" amt]
    handleAction_raise [OF assms(1), of amt]
  by blast

text \<open>
  The theorem on the three-handed table, where Ann has 1000 chips and no bet and the bet
  to match is 20: her raise by 40 sets her bet to 60 and her stack to 940, and her raise
  by 5000 puts her all-in for 1000.
\<close>

theorem raise_applied_witness:
  "map_option (\<lambda>p. (chips p, bet p))
      (seatAt (players threeHanded) (currentPlayerIndex (gameState threeHanded)))
     = Some (1000, 0) \<and>
   currentBet (gameState threeHanded) = 20 \<and>
   exactAction 40 threeHanded \<and> exactAction 5000 threeHanded \<and>
   (\<exists>t' sched p'. action ''raise'' 40 threeHanded = Some (t', sched) \<and>
      seatAt (players t') 0 = Some p' \<and> bet p' = 60 \<and> chips p' = 940 \<and>
      currentBet (gameState t') = 60 \<and> lastRaiserIndex (gameState t') = Some 0) \<and>
   (\<exists>t' sched p'. action ''raise'' 5000 threeHanded = Some (t', sched) \<and>
      seatAt (players t') 0 = Some p' \<and> bet p' = 1000 \<and> chips p' = 0 \<and>
      status p' = ALL_IN)"
proof -
  let ?g = "gameState threeHanded"
  have f: "map_option (\<lambda>p. (chips p, bet p)) (seatAt (players threeHanded) (currentPlayerIndex ?g))
           = Some (1000, 0)"
    by code_simp
  then obtain p where p: "seatAt (players threeHanded) (currentPlayerIndex ?g) = Some p"
    and cp: "chips p = 1000" "bet p = 0"
    by auto
  have i: "currentPlayerIndex ?g = 0" by code_simp
  have cb: "currentBet ?g = 20" by code_simp
  have e40: "exactAction 40 threeHanded" by code_simp
  have e5000: "exactAction 5000 threeHanded" by code_simp
  note r40 = raise_applied [OF p e40]
  note r5000 = raise_applied [OF p e5000]
  from r40 i obtain t1 s1 where a1: "action ''raise'' 40 threeHanded = Some (t1, s1)"
    by fastforce
  with r40 obtain p1 where p1: "seatAt (players t1) (currentPlayerIndex ?g) = Some p1"
      "raiseApplied ?g 40 p p1 (gameState t1)"
    by blast
  from r5000 i obtain t2 s2 where a2: "action ''raise'' 5000 threeHanded = Some (t2, s2)"
    by fastforce
  with r5000 obtain p2 where p2: "seatAt (players t2) (currentPlayerIndex ?g) = Some p2"
      "raiseApplied ?g 5000 p p2 (gameState t2)"
    by blast
  from p1 have "seatAt (players t1) 0 = Some p1 \<and> bet p1 = 60 \<and> chips p1 = 940 \<and>
      currentBet (gameState t1) = 60 \<and> lastRaiserIndex (gameState t1) = Some 0"
    by (simp add: raiseApplied_def Let_def cp cb i)
  moreover from p2 have "seatAt (players t2) 0 = Some p2 \<and> bet p2 = 1000 \<and> chips p2 = 0 \<and>
      status p2 = ALL_IN"
    by (simp add: raiseApplied_def Let_def cp cb i)
  ultimately show ?thesis using f cb a1 a2 e40 e5000 by blast
qed

subsection \<open>The split of the pot at showdown\<close>

lemma seatedFrom_iff:
  "(i, p) \<in> set (seatedFrom k ps) \<longleftrightarrow> k \<le> i \<and> i - k < length ps \<and> ps ! (i - k) = Some p"
proof (induction k ps rule: seatedFrom.induct)
  case (1 i)
  then show ?case by simp
next
  case (2 k ps)
  show ?case
  proof (cases "i = k")
    case True
    then show ?thesis using 2 by auto
  next
    case False
    then show ?thesis using 2 by (auto simp: Suc_diff_le nth_Cons')
  qed
next
  case (3 k q ps)
  show ?case
  proof (cases "i = k")
    case True
    then show ?thesis using 3 by auto
  next
    case False
    then show ?thesis using 3 by (auto simp: Suc_diff_le nth_Cons')
  qed
qed

lemma seatedFrom_lower: "x \<in> set (seatedFrom k ps) \<Longrightarrow> k \<le> fst x"
  using seatedFrom_iff [of "fst x" "snd x" k ps] by simp

lemma distinct_seatedFrom: "distinct (map fst (seatedFrom k ps))"
proof (induction k ps rule: seatedFrom.induct)
  case (3 i p ps)
  have "i \<notin> fst ` set (seatedFrom (Suc i) ps)"
    using seatedFrom_lower [of _ "Suc i" ps] by fastforce
  with 3 show ?case by simp
qed simp_all

lemma server_evals_pid:
  "server_evals board cands = Inr evals \<Longrightarrow>
     map (\<lambda>e. (entryIndex e, entryPlayerId e)) evals = map (\<lambda>(i, p). (i, pid p)) cands"
  by (induction board cands arbitrary: evals rule: server_evals.induct)
     (auto split: sum.splits)

lemma client_evals_pid:
  "client_evals board cands = Inr evals \<Longrightarrow>
     map (\<lambda>e. (entryIndex e, entryPlayerId e)) evals = map (\<lambda>(i, p). (i, pid p)) cands"
  by (induction board cands arbitrary: evals rule: client_evals.induct)
     (auto split: sum.splits)

lemma bestEntries_tied:
  fixes evals :: "('i, 'n::linordered_idom) handEntry list"
  assumes "evals \<noteq> []"
  shows "bestEntries (sort_key (\<lambda>e. - entryScore e) evals) = tiedEntries evals"
proof -
  let ?s = "sort_key (\<lambda>e. - entryScore e) evals"
  have ne: "?s \<noteq> []" using assms by (metis length_sort length_0_conv)
  then obtain e rest where s: "?s = e # rest" by (cases ?s) auto
  have srt: "sorted (map (\<lambda>e. - entryScore e) ?s)" by (rule sorted_sort_key)
  have "e \<in> set evals" using s by (metis list.set_intros(1) set_sort)
  moreover have "entryScore x \<le> entryScore e" if "x \<in> set evals" for x
  proof -
    have "x \<in> set ?s" using that by simp
    then have "x = e \<or> x \<in> set rest" by (simp add: s)
    then show ?thesis using srt by (auto simp: s)
  qed
  ultimately have m: "Max (entryScore ` set evals) = entryScore e"
    by (intro Max_eqI) auto
  have "bestEntries ?s = filter (\<lambda>x. - entryScore x = - entryScore e) ?s"
    by (simp add: bestEntries_def s)
  also have "\<dots> = filter (\<lambda>x. - entryScore x = - entryScore e) evals"
    by (rule sort_key_stable)
  finally show ?thesis by (simp add: tiedEntries_def m)
qed

lemma length_creditSeat: "length (creditSeat a i ps) = length ps"
  by (simp add: creditSeat_def split: option.splits)

lemma nth_creditSeat:
  "j < length ps \<Longrightarrow>
     creditSeat a i ps ! j =
       (if j = i then map_option (\<lambda>p. p\<lparr>chips := chips p + a\<rparr>) (ps ! j) else ps ! j)"
  by (auto simp: creditSeat_def seatAt_def split: option.splits)

lemma length_fold_creditSeat:
  "length (fold (\<lambda>w. creditSeat a (entryIndex w)) ws ps) = length ps"
  by (induction ws arbitrary: ps) (simp_all add: length_creditSeat)

lemma nth_fold_creditSeat:
  "distinct (map entryIndex ws) \<Longrightarrow> j < length ps \<Longrightarrow>
     fold (\<lambda>w. creditSeat a (entryIndex w)) ws ps ! j =
       (if j \<in> entryIndex ` set ws then map_option (\<lambda>p. p\<lparr>chips := chips p + a\<rparr>) (ps ! j)
        else ps ! j)"
proof (induction ws arbitrary: ps)
  case Nil
  then show ?case by simp
next
  case (Cons w ws)
  have "fold (\<lambda>w. creditSeat a (entryIndex w)) ws (creditSeat a (entryIndex w) ps) ! j =
        (if j \<in> entryIndex ` set ws
         then map_option (\<lambda>p. p\<lparr>chips := chips p + a\<rparr>) (creditSeat a (entryIndex w) ps ! j)
         else creditSeat a (entryIndex w) ps ! j)"
    using Cons.prems by (intro Cons.IH) (simp_all add: length_creditSeat)
  then show ?case using Cons.prems by (auto simp: nth_creditSeat)
qed

lemma sum_creditSeat:
  "seatAt ps (int i) = Some p \<Longrightarrow>
     sum_list (map chips (seated (creditSeat a i ps))) = sum_list (map chips (seated ps)) + a"
  using sum_seated_update [of i ps p chips "p\<lparr>chips := chips p + a\<rparr>"]
  by (auto simp: creditSeat_def dest!: seatAt_SomeD)

lemma seatAt_creditSeat_None:
  "seatAt (creditSeat a i ps) j = None \<longleftrightarrow> seatAt ps j = None"
  by (auto simp: seatAt_def length_creditSeat nth_creditSeat)

lemma sum_fold_creditSeat:
  "\<forall>w \<in> set ws. seatAt ps (int (entryIndex w)) \<noteq> None \<Longrightarrow>
     sum_list (map chips (seated (fold (\<lambda>w. creditSeat a (entryIndex w)) ws ps))) =
       sum_list (map chips (seated ps)) + int (length ws) * a"
proof (induction ws arbitrary: ps)
  case Nil
  then show ?case by simp
next
  case (Cons w ws)
  from Cons.prems obtain p where p: "seatAt ps (int (entryIndex w)) = Some p" by auto
  have "\<forall>v \<in> set ws. seatAt (creditSeat a (entryIndex w) ps) (int (entryIndex v)) \<noteq> None"
    using Cons.prems by (simp add: seatAt_creditSeat_None)
  from Cons.IH [OF this] sum_creditSeat [OF p, of a] show ?case
    by (simp add: algebra_simps)
qed

lemma entries_of_candidates:
  assumes "map (\<lambda>e. (entryIndex e, entryPlayerId e)) evals =
           map (\<lambda>(i, p). (i, pid p)) (filter (\<lambda>(i, p). isActive p) (seatedFrom 0 ps))"
  shows "distinct (map entryIndex evals)"
    and "\<forall>e \<in> set evals. \<exists>p. seatAt ps (int (entryIndex e)) = Some p \<and> isActive p \<and>
           entryPlayerId e = pid p"
proof -
  let ?c = "filter (\<lambda>(i, p). isActive p) (seatedFrom 0 ps)"
  have "map fst (map (\<lambda>e. (entryIndex e, entryPlayerId e)) evals) =
        map fst (map (\<lambda>(i, p). (i, pid p)) ?c)"
    using assms by simp
  then have "map entryIndex evals = map fst ?c"
    by (simp add: comp_def case_prod_beta)
  then show "distinct (map entryIndex evals)"
    by (simp add: distinct_map_filter distinct_seatedFrom)
  show "\<forall>e \<in> set evals. \<exists>p. seatAt ps (int (entryIndex e)) = Some p \<and> isActive p \<and>
           entryPlayerId e = pid p"
  proof
    fix e assume "e \<in> set evals"
    then have "(entryIndex e, entryPlayerId e) \<in> set (map (\<lambda>e. (entryIndex e, entryPlayerId e)) evals)"
      by auto
    then have "(entryIndex e, entryPlayerId e) \<in> set (map (\<lambda>(i, p). (i, pid p)) ?c)"
      by (simp only: assms)
    then obtain p where p: "(entryIndex e, p) \<in> set (seatedFrom 0 ps)" "isActive p"
        "entryPlayerId e = pid p"
      by auto
    from p(1) have "entryIndex e < length ps \<and> ps ! entryIndex e = Some p"
      by (simp add: seatedFrom_iff)
    then have "seatAt ps (int (entryIndex e)) = Some p" by (simp add: seatAt_def)
    with p show "\<exists>p. seatAt ps (int (entryIndex e)) = Some p \<and> isActive p \<and>
           entryPlayerId e = pid p" by blast
  qed
qed

lemma split_pot:
  fixes evals :: "('i, 'n::linordered_idom) handEntry list"
    and ps :: "'i player option list" and totalPot :: int
  assumes c: "map (\<lambda>e. (entryIndex e, entryPlayerId e)) evals =
           map (\<lambda>(i, p). (i, pid p)) (filter (\<lambda>(i, p). isActive p) (seatedFrom 0 ps))"
    and ne: "evals \<noteq> []"
  defines "ws \<equiv> bestEntries (sort_key (\<lambda>e. - entryScore e) evals)"
  defines "share \<equiv> totalPot div int (length ws)"
  shows "0 < length (tiedEntries evals)"
    and "distinct (map entryIndex (tiedEntries evals))"
    and "\<forall>e \<in> set (tiedEntries evals). \<exists>p. seatAt ps (int (entryIndex e)) = Some p \<and>
           isActive p \<and> entryPlayerId e = pid p"
    and "evenSplit (tiedEntries evals) totalPot ps
           (fold (\<lambda>w. creditSeat share (entryIndex w)) ws ps)
           (map (\<lambda>w. \<lparr>playerId = entryPlayerId w, handName = entryName w, amount = share\<rparr>) ws)"
proof -
  let ?tied = "tiedEntries evals"
  have ws: "ws = ?tied" unfolding ws_def by (rule bestEntries_tied [OF ne])
  have "Max (entryScore ` set evals) \<in> entryScore ` set evals"
    using ne by (intro Max_in) auto
  then obtain e where "e \<in> set evals" "entryScore e = Max (entryScore ` set evals)"
    by auto
  then have "e \<in> set ?tied" by (simp add: tiedEntries_def)
  then show pos: "0 < length ?tied" by (cases ?tied) auto
  have d: "distinct (map entryIndex evals)" by (rule entries_of_candidates(1) [OF c])
  then show dt: "distinct (map entryIndex ?tied)"
    unfolding tiedEntries_def by (rule distinct_map_filter)
  show v: "\<forall>e \<in> set ?tied. \<exists>p. seatAt ps (int (entryIndex e)) = Some p \<and>
           isActive p \<and> entryPlayerId e = pid p"
    using entries_of_candidates(2) [OF c] by (simp add: tiedEntries_def)
  then have v': "\<forall>w \<in> set ?tied. seatAt ps (int (entryIndex w)) \<noteq> None" by auto
  have n: "int (length ?tied) * (totalPot div int (length ?tied)) =
           totalPot - totalPot mod int (length ?tied)"
    by (simp add: minus_mod_eq_mult_div)
  show "evenSplit ?tied totalPot ps
           (fold (\<lambda>w. creditSeat share (entryIndex w)) ws ps)
           (map (\<lambda>w. \<lparr>playerId = entryPlayerId w, handName = entryName w, amount = share\<rparr>) ws)"
    unfolding evenSplit_def Let_def share_def ws
    using nth_fold_creditSeat [OF dt, of _ ps] sum_fold_creditSeat [OF v'] n
    by (simp add: length_fold_creditSeat)
qed

lemma computeWinners_split:
  assumes ev: "server_evals (communityCards (gameState t))
                 (filter (\<lambda>(i, p). isActive p) (seatedFrom 0 (players t))) = Inr evals"
    and ne: "evals \<noteq> []"
  shows "\<exists>t' rs. computeWinners t = Inr t' \<and> pot (gameState t') = 0 \<and>
           winners (gameState t') = winners (gameState t) @ rs \<and>
           evenSplit (tiedEntries evals) (pot (gameState t)) (players t) (players t') rs"
  using split_pot(4) [OF server_evals_pid [OF ev] ne, of "pot (gameState t)"] ne
  by (simp add: computeWinners_def Let_def ev addLog_def)

lemma client_computeWinners_split:
  assumes ev: "client_evals board
                 (filter (\<lambda>(i, p). isActive p) (seatedFrom 0 ps)) = Inr evals"
    and ne: "evals \<noteq> []"
  shows "\<exists>ps' rs. client_computeWinners ps board totalPot = Inr (ps', rs) \<and>
           evenSplit (tiedEntries evals) totalPot ps ps' rs"
  using split_pot(4) [OF client_evals_pid [OF ev] ne, of totalPot] ne
  by (simp add: client_computeWinners_def Let_def ev)

lemma server_evaluateHand_returns:
  assumes "h @ b \<noteq> []"
  shows "\<exists>r. server_evaluateHand h b = Inr r"
proof -
  define hand where "hand = sortDesc (h @ b)"
  have ne: "hand \<noteq> []"
    using assms length_sortDesc [of "h @ b"] by (auto simp: hand_def)
  show ?thesis
  proof (cases "isFlush hand")
    case None
    then show ?thesis
      unfolding server_evaluateHand_def Let_def hand_def [symmetric]
      using ne by (simp split: list.splits)
  next
    case (Some fc)
    then have "length fc = 5" by (rule isFlush_length)
    then have fc: "fc \<noteq> []" by auto
    show ?thesis
      unfolding server_evaluateHand_def Let_def hand_def [symmetric]
      using ne fc by (simp add: Some split: list.splits)
  qed
qed

lemma evaluateHand_returns:
  assumes "h @ b \<noteq> []"
  shows "\<exists>r. evaluateHand h b = Inr r"
proof -
  define hand where "hand = sortDesc (h @ b)"
  have ne: "hand \<noteq> []"
    using assms length_sortDesc [of "h @ b"] by (auto simp: hand_def)
  show ?thesis
  proof (cases "isFlush hand")
    case None
    then show ?thesis
      unfolding evaluateHand_def Let_def hand_def [symmetric]
      using ne by (simp split: list.splits)
  next
    case (Some fc)
    then have "length fc = 5" by (rule isFlush_length)
    then have fc: "fc \<noteq> []" by auto
    show ?thesis
      unfolding evaluateHand_def Let_def hand_def [symmetric]
      using ne fc by (simp add: Some split: list.splits)
  qed
qed

lemma definedCards_length: "definedCards xs = Some ys \<Longrightarrow> length ys = length xs"
  by (induction xs arbitrary: ys rule: definedCards.induct) auto

lemma server_evaluateCards_returns:
  assumes "definedCards hs \<noteq> None" "definedCards bs \<noteq> None" "hs @ bs \<noteq> []"
  shows "\<exists>r. server_evaluateCards hs bs = Inr r"
proof -
  from assms obtain h b where hb: "definedCards hs = Some h" "definedCards bs = Some b" by auto
  then have "length (h @ b) = length (hs @ bs)" by (simp add: definedCards_length)
  with assms(3) have "h @ b \<noteq> []" by (metis length_0_conv)
  from server_evaluateHand_returns [OF this] show ?thesis
    by (simp add: server_evaluateCards_def hb)
qed

lemma evaluateCards_returns:
  assumes "definedCards hs \<noteq> None" "definedCards bs \<noteq> None" "hs @ bs \<noteq> []"
  shows "\<exists>r. evaluateCards hs bs = Inr r"
proof -
  from assms obtain h b where hb: "definedCards hs = Some h" "definedCards bs = Some b" by auto
  then have "length (h @ b) = length (hs @ bs)" by (simp add: definedCards_length)
  with assms(3) have "h @ b \<noteq> []" by (metis length_0_conv)
  from evaluateHand_returns [OF this] show ?thesis
    by (simp add: evaluateCards_def hb)
qed

lemma server_evals_returns:
  assumes "definedCards board \<noteq> None"
  shows "list_all (\<lambda>(i, p). definedCards (cards p) \<noteq> None \<and> cards p @ board \<noteq> []) cands \<Longrightarrow>
         \<exists>evals. server_evals board cands = Inr evals \<and> length evals = length cands"
proof (induction cands)
  case Nil
  then show ?case by simp
next
  case (Cons c cands)
  obtain i p where c: "c = (i, p)" by (cases c)
  from Cons.prems c have "definedCards (cards p) \<noteq> None" "cards p @ board \<noteq> []" by simp_all
  from server_evaluateCards_returns [OF this(1) assms this(2)]
  obtain r where r: "server_evaluateCards (cards p) board = Inr r" by blast
  from Cons obtain evals where "server_evals board cands = Inr evals" "length evals = length cands"
    by auto
  with r c show ?case by simp
qed

lemma client_evals_returns:
  assumes "definedCards board \<noteq> None"
  shows "list_all (\<lambda>(i, p). definedCards (cards p) \<noteq> None \<and> cards p @ board \<noteq> []) cands \<Longrightarrow>
         \<exists>evals. client_evals board cands = Inr evals \<and> length evals = length cands"
proof (induction cands)
  case Nil
  then show ?case by simp
next
  case (Cons c cands)
  obtain i p where c: "c = (i, p)" by (cases c)
  from Cons.prems c have "definedCards (cards p) \<noteq> None" "cards p @ board \<noteq> []" by simp_all
  from evaluateCards_returns [OF this(1) assms this(2)]
  obtain r where r: "evaluateCards (cards p) board = Inr r" by blast
  from Cons obtain evals where "client_evals board cands = Inr evals" "length evals = length cands"
    by auto
  with r c show ?case by simp
qed

lemma seatedFrom_map:
  "seatedFrom k (map (map_option f) ps) = map (\<lambda>(i, p). (i, f p)) (seatedFrom k ps)"
  by (induction k ps rule: seatedFrom.induct) auto

lemma contenders_swept_from:
  "filter (\<lambda>(i, p). isActive p)
      (seatedFrom k (map (map_option (\<lambda>p. p\<lparr>bet := 0, hasActed := False\<rparr>)) ps)) =
   map (\<lambda>(i, p). (i, p\<lparr>bet := 0, hasActed := False\<rparr>))
      (filter (\<lambda>(i, p). isActive p) (seatedFrom k ps))"
  by (induction k ps rule: seatedFrom.induct) (auto simp: isActive_def)

lemma contenders_swept:
  "contenders (map (map_option (\<lambda>p. p\<lparr>bet := 0, hasActed := False\<rparr>)) ps) =
     map (\<lambda>(i, p). (i, p\<lparr>bet := 0, hasActed := False\<rparr>)) (contenders ps)"
  by (simp add: contenders_def contenders_swept_from)

lemma showdownReady_swept:
  "showdownReady ps board \<Longrightarrow>
     showdownReady (map (map_option (\<lambda>p. p\<lparr>bet := 0, hasActed := False\<rparr>)) ps) board"
  by (simp add: showdownReady_def contenders_swept list_all_iff case_prod_beta)

lemma seated_length_contenders:
  "length (filter isActive (seated ps)) = length (contenders ps)"
proof -
  have "map snd (seatedFrom k ps) = seated ps" for k
    by (induction k ps rule: seatedFrom.induct) auto
  then have "filter isActive (seated ps) = map snd (filter (\<lambda>(i, p). isActive p) (seatedFrom 0 ps))"
    by (metis (mono_tags, lifting) filter_map comp_def case_prod_beta filter_cong)
  then show ?thesis by (simp add: contenders_def)
qed

lemma client_nextPhase_river:
  assumes ph: "phase (gameState t) = RIVER"
    and n1: "length (contenders (players t)) \<noteq> 1"
    and cw: "client_computeWinners (fst (collectBetsToPot (players t)))
               (communityCards (gameState t))
               (pot (gameState t) + snd (collectBetsToPot (players t))) = Inr (ps', rs)"
  shows "\<exists>t'. client_nextPhase t = Inr t' \<and> players t' = ps' \<and> winners (gameState t') = rs \<and>
           phase (gameState t') = SHOWDOWN \<and> pot (gameState t') = 0 \<and>
           currentPlayerIndex (gameState t') = - 1"
proof -
  obtain ups roundPot where c: "collectBetsToPot (players t) = (ups, roundPot)"
    by (cases "collectBetsToPot (players t)")
  have ups: "ups = map (map_option (\<lambda>p. p\<lparr>bet := 0, hasActed := False\<rparr>)) (players t)"
    using c by (simp add: collectBetsToPot_def)
  have "length (filter isActive (seated ups)) \<noteq> 1"
    using n1 by (simp add: seated_length_contenders ups contenders_swept)
  moreover have "client_deal (gameState t) =
      (communityCards (gameState t), deck (gameState t), SHOWDOWN, ''Showdown!'')"
    by (simp add: client_deal_def ph)
  ultimately show ?thesis
    using cw by (simp add: client_nextPhase_def Let_def c)
qed

text \<open>
  C9. Take a table whose showdown is ready (there is a contender, that is a seated player
  neither folded nor busted; the board and every contender's hole cards are there) and
  whose stacks, bets and pot are below \<open>2^53\<close> in magnitude taken together, the range in
  which the program's doubles are exact. The evaluation of the contenders then succeeds;
  let the tied entries be those with the highest score, \<open>n\<close> of them. There is at least
  one, they sit at different seats, each at a contender's seat, and the server's
  \<open>computeWinners\<close> returns a table in which the pot is 0, one winner record per tied
  entry has been appended to the winners, each with the floor of pot / n as its amount,
  each tied seat's stack has grown by that amount, no other seat has changed, and the
  stacks have grown by the pot less (pot mod n) in total: the remainder goes to no seat.
  The client's \<open>computeWinners\<close> returns the same split, with its records, of the pot it
  is given; and on the river, unless exactly one contender is left, the client's
  \<open>nextPhase\<close> sweeps the bets, pays that split of the pot with the bets, stores the
  records as the winners, and returns a state whose pot is 0 and whose phase is SHOWDOWN.
\<close>

theorem showdown_split:
  assumes ready: "showdownReady (players t) (communityCards (gameState t))"
    and exact: "exactMoney t"
  shows
   "(\<exists>evals t' rs.
       server_evals (communityCards (gameState t)) (contenders (players t)) = Inr evals \<and>
       0 < length (tiedEntries evals) \<and> distinct (map entryIndex (tiedEntries evals)) \<and>
       (\<forall>e \<in> set (tiedEntries evals).
          \<exists>p. seatAt (players t) (int (entryIndex e)) = Some p \<and> isActive p \<and>
              entryPlayerId e = pid p) \<and>
       computeWinners t = Inr t' \<and> pot (gameState t') = 0 \<and>
       winners (gameState t') = winners (gameState t) @ rs \<and>
       evenSplit (tiedEntries evals) (pot (gameState t)) (players t) (players t') rs) \<and>
    (\<exists>cevals ps' rs.
       client_evals (communityCards (gameState t)) (contenders (players t)) = Inr cevals \<and>
       0 < length (tiedEntries cevals) \<and> distinct (map entryIndex (tiedEntries cevals)) \<and>
       client_computeWinners (players t) (communityCards (gameState t)) (pot (gameState t))
         = Inr (ps', rs) \<and>
       evenSplit (tiedEntries cevals) (pot (gameState t)) (players t) ps' rs) \<and>
    (phase (gameState t) = RIVER \<and> length (contenders (players t)) \<noteq> 1 \<longrightarrow>
       (\<exists>cevals t'.
          client_evals (communityCards (gameState t))
            (contenders (fst (collectBetsToPot (players t)))) = Inr cevals \<and>
          0 < length (tiedEntries cevals) \<and>
          client_nextPhase t = Inr t' \<and> phase (gameState t') = SHOWDOWN \<and>
          pot (gameState t') = 0 \<and> currentPlayerIndex (gameState t') = - 1 \<and>
          evenSplit (tiedEntries cevals)
            (pot (gameState t) + snd (collectBetsToPot (players t)))
            (fst (collectBetsToPot (players t))) (players t') (winners (gameState t'))))"
proof (intro conjI impI)
  let ?board = "communityCards (gameState t)"
  from ready have ne: "contenders (players t) \<noteq> []" and b: "definedCards ?board \<noteq> None"
    and all: "list_all (\<lambda>(i, p). definedCards (cards p) \<noteq> None \<and> cards p @ ?board \<noteq> [])
                (contenders (players t))"
    by (simp_all add: showdownReady_def)
  show "\<exists>evals t' rs.
       server_evals ?board (contenders (players t)) = Inr evals \<and>
       0 < length (tiedEntries evals) \<and> distinct (map entryIndex (tiedEntries evals)) \<and>
       (\<forall>e \<in> set (tiedEntries evals).
          \<exists>p. seatAt (players t) (int (entryIndex e)) = Some p \<and> isActive p \<and>
              entryPlayerId e = pid p) \<and>
       computeWinners t = Inr t' \<and> pot (gameState t') = 0 \<and>
       winners (gameState t') = winners (gameState t) @ rs \<and>
       evenSplit (tiedEntries evals) (pot (gameState t)) (players t) (players t') rs"
  proof -
    from server_evals_returns [OF b all] obtain evals
      where ev: "server_evals ?board (contenders (players t)) = Inr evals"
        and len: "length evals = length (contenders (players t))" by blast
    from len ne have en: "evals \<noteq> []" by auto
    note ev' = ev [unfolded contenders_def]
    note c = server_evals_pid [OF ev']
    from split_pot(1) [OF c en] split_pot(2) [OF c en] split_pot(3) [OF c en]
      computeWinners_split [OF ev' en] ev
    show ?thesis by blast
  qed
  show "\<exists>cevals ps' rs.
       client_evals ?board (contenders (players t)) = Inr cevals \<and>
       0 < length (tiedEntries cevals) \<and> distinct (map entryIndex (tiedEntries cevals)) \<and>
       client_computeWinners (players t) ?board (pot (gameState t)) = Inr (ps', rs) \<and>
       evenSplit (tiedEntries cevals) (pot (gameState t)) (players t) ps' rs"
  proof -
    from client_evals_returns [OF b all] obtain evals
      where ev: "client_evals ?board (contenders (players t)) = Inr evals"
        and len: "length evals = length (contenders (players t))" by blast
    from len ne have en: "evals \<noteq> []" by auto
    note ev' = ev [unfolded contenders_def]
    note c = client_evals_pid [OF ev']
    from split_pot(1) [OF c en] split_pot(2) [OF c en]
      client_computeWinners_split [OF ev' en, of "pot (gameState t)"] ev
    show ?thesis by blast
  qed
  assume r: "phase (gameState t) = RIVER \<and> length (contenders (players t)) \<noteq> 1"
  let ?ups = "fst (collectBetsToPot (players t))"
  let ?newPot = "pot (gameState t) + snd (collectBetsToPot (players t))"
  have ups: "?ups = map (map_option (\<lambda>p. p\<lparr>bet := 0, hasActed := False\<rparr>)) (players t)"
    by (simp add: collectBetsToPot_def)
  have ready': "showdownReady ?ups ?board"
    unfolding ups using ready by (rule showdownReady_swept)
  then have ne': "contenders ?ups \<noteq> []"
    and all': "list_all (\<lambda>(i, p). definedCards (cards p) \<noteq> None \<and> cards p @ ?board \<noteq> [])
                (contenders ?ups)"
    by (simp_all add: showdownReady_def)
  from client_evals_returns [OF b all'] obtain evals
    where ev: "client_evals ?board (contenders ?ups) = Inr evals"
      and len: "length evals = length (contenders ?ups)" by blast
  from len ne' have en: "evals \<noteq> []" by auto
  note ev' = ev [unfolded contenders_def]
  note c = client_evals_pid [OF ev']
  from client_computeWinners_split [OF ev' en, of ?newPot]
  obtain ps' rs where cw: "client_computeWinners ?ups ?board ?newPot = Inr (ps', rs)"
    and es: "evenSplit (tiedEntries evals) ?newPot ?ups ps' rs" by blast
  from client_nextPhase_river [OF _ _ cw] r
  obtain t' where "client_nextPhase t = Inr t'" "players t' = ps'" "winners (gameState t') = rs"
      "phase (gameState t') = SHOWDOWN" "pot (gameState t') = 0"
      "currentPlayerIndex (gameState t') = - 1"
    by blast
  with es ev split_pot(1) [OF c en]
  show "\<exists>cevals t'.
          client_evals ?board (contenders ?ups) = Inr cevals \<and>
          0 < length (tiedEntries cevals) \<and>
          client_nextPhase t = Inr t' \<and> phase (gameState t') = SHOWDOWN \<and>
          pot (gameState t') = 0 \<and> currentPlayerIndex (gameState t') = - 1 \<and>
          evenSplit (tiedEntries cevals) ?newPot ?ups (players t') (winners (gameState t'))"
    by blast
qed

text \<open>
  The theorem at the showdown where Ann and Bob both play the board's straight for a pot
  of 41, on the server and on the client: each is paid 20, the stacks grow from 300 to
  340 in total, and one chip is gone. The client's \<open>nextPhase\<close> on the river, with a pot
  of 21 and two bets of 10, ends with the same payout and a pot of 0.
\<close>

theorem showdown_split_witness:
  "showdownReady (players tiedShowdown) (communityCards (gameState tiedShowdown)) \<and>
   exactMoney tiedShowdown \<and>
   pot (gameState tiedShowdown) = 41 \<and>
   sum_list (map chips (seated (players tiedShowdown))) = 300 \<and>
   (\<exists>t'. computeWinners tiedShowdown = Inr t' \<and> pot (gameState t') = 0 \<and>
      winners (gameState t') =
        [\<lparr>playerId = ''a'', handName = ''Straight'', amount = 20\<rparr>,
         \<lparr>playerId = ''b'', handName = ''Straight'', amount = 20\<rparr>] \<and>
      sum_list (map chips (seated (players t'))) = 340) \<and>
   (\<exists>ps'. client_computeWinners (players tiedShowdown) (communityCards (gameState tiedShowdown))
             41 =
           Inr (ps', [\<lparr>playerId = ''a'', handName = ''Straight'', amount = 20\<rparr>,
                      \<lparr>playerId = ''b'', handName = ''Straight'', amount = 20\<rparr>]) \<and>
      sum_list (map chips (seated ps')) = 340) \<and>
   showdownReady (players tiedRiver) (communityCards (gameState tiedRiver)) \<and>
   exactMoney tiedRiver \<and>
   phase (gameState tiedRiver) = RIVER \<and>
   pot (gameState tiedRiver) + snd (collectBetsToPot (players tiedRiver)) = 41 \<and>
   (\<exists>t'. client_nextPhase tiedRiver = Inr t' \<and> phase (gameState t') = SHOWDOWN \<and>
      pot (gameState t') = 0 \<and>
      winners (gameState t') =
        [\<lparr>playerId = ''a'', handName = ''Straight'', amount = 20\<rparr>,
         \<lparr>playerId = ''b'', handName = ''Straight'', amount = 20\<rparr>] \<and>
      sum_list (map chips (seated (players t'))) = 340)"
proof -
  let ?E = "[\<lparr>entryPlayerId = ''a'', entryScore = 5000014 :: int, entryName = ''Straight'',
               entryIndex = 0\<rparr>,
             \<lparr>entryPlayerId = ''b'', entryScore = 5000014, entryName = ''Straight'',
               entryIndex = 1\<rparr>]"
  let ?C = "[\<lparr>entryPlayerId = ''a'', entryScore = 5000014 :: rat, entryName = ''Straight'',
               entryIndex = 0\<rparr>,
             \<lparr>entryPlayerId = ''b'', entryScore = 5000014, entryName = ''Straight'',
               entryIndex = 1\<rparr>]"
  let ?b = "communityCards (gameState tiedShowdown)"
  have r1: "showdownReady (players tiedShowdown) ?b" by code_simp
  have x1: "exactMoney tiedShowdown" by code_simp
  have r2: "showdownReady (players tiedRiver) (communityCards (gameState tiedRiver))" by code_simp
  have x2: "exactMoney tiedRiver" by code_simp
  have ph: "phase (gameState tiedRiver) = RIVER" by code_simp
  have n1: "length (contenders (players tiedRiver)) \<noteq> 1" by code_simp
  have ev: "server_evals ?b (contenders (players tiedShowdown)) = Inr ?E" by code_simp
  have cv: "client_evals ?b (contenders (players tiedShowdown)) = Inr ?C" by code_simp
  have cr: "client_evals (communityCards (gameState tiedRiver))
              (contenders (fst (collectBetsToPot (players tiedRiver)))) = Inr ?C" by code_simp
  have s: "sum_list (map chips (seated (players tiedShowdown))) = 300" by code_simp
  have sr: "sum_list (map chips (seated (fst (collectBetsToPot (players tiedRiver))))) = 300"
    by code_simp
  have p: "pot (gameState tiedShowdown) = 41" by code_simp
  have pr: "pot (gameState tiedRiver) + snd (collectBetsToPot (players tiedRiver)) = 41"
    by code_simp
  have w: "winners (gameState tiedShowdown) = []" by code_simp
  have td: "tiedEntries ?E = ?E" by (simp add: tiedEntries_def)
  have tc: "tiedEntries ?C = ?C" by (simp add: tiedEntries_def)
  note th1 = showdown_split [OF r1 x1]
  note th2 = showdown_split [OF r2 x2]
  from th1 ev obtain t' rs where a: "computeWinners tiedShowdown = Inr t'"
      "pot (gameState t') = 0"
      "winners (gameState t') = winners (gameState tiedShowdown) @ rs"
      "evenSplit (tiedEntries ?E) (pot (gameState tiedShowdown)) (players tiedShowdown)
         (players t') rs"
    by auto
  from a(4) have a': "rs = [\<lparr>playerId = ''a'', handName = ''Straight'', amount = 20\<rparr>,
         \<lparr>playerId = ''b'', handName = ''Straight'', amount = 20\<rparr>]"
      "sum_list (map chips (seated (players t'))) = 340"
    unfolding td by (simp_all add: evenSplit_def Let_def p s)
  from th1 cv obtain ps' crs where b: "client_computeWinners (players tiedShowdown) ?b
        (pot (gameState tiedShowdown)) = Inr (ps', crs)"
      "evenSplit (tiedEntries ?C) (pot (gameState tiedShowdown)) (players tiedShowdown) ps' crs"
    by auto
  from b(2) have b': "crs = [\<lparr>playerId = ''a'', handName = ''Straight'', amount = 20\<rparr>,
         \<lparr>playerId = ''b'', handName = ''Straight'', amount = 20\<rparr>]"
      "sum_list (map chips (seated ps')) = 340"
    unfolding tc by (simp_all add: evenSplit_def Let_def p s)
  from th2 ph n1 cr obtain t2 where c: "client_nextPhase tiedRiver = Inr t2"
      "phase (gameState t2) = SHOWDOWN" "pot (gameState t2) = 0"
      "evenSplit (tiedEntries ?C)
         (pot (gameState tiedRiver) + snd (collectBetsToPot (players tiedRiver)))
         (fst (collectBetsToPot (players tiedRiver))) (players t2) (winners (gameState t2))"
    by auto
  from c(4) have c': "winners (gameState t2) =
        [\<lparr>playerId = ''a'', handName = ''Straight'', amount = 20\<rparr>,
         \<lparr>playerId = ''b'', handName = ''Straight'', amount = 20\<rparr>]"
      "sum_list (map chips (seated (players t2))) = 340"
    unfolding tc by (simp_all add: evenSplit_def Let_def pr sr)
  from a(1,2) a(3) [unfolded w] a' have A: "\<exists>t'. computeWinners tiedShowdown = Inr t' \<and>
      pot (gameState t') = 0 \<and>
      winners (gameState t') =
        [\<lparr>playerId = ''a'', handName = ''Straight'', amount = 20\<rparr>,
         \<lparr>playerId = ''b'', handName = ''Straight'', amount = 20\<rparr>] \<and>
      sum_list (map chips (seated (players t'))) = 340"
    by auto
  from b(1) b' have B: "\<exists>ps'. client_computeWinners (players tiedShowdown) ?b 41 =
           Inr (ps', [\<lparr>playerId = ''a'', handName = ''Straight'', amount = 20\<rparr>,
                      \<lparr>playerId = ''b'', handName = ''Straight'', amount = 20\<rparr>]) \<and>
      sum_list (map chips (seated ps')) = 340"
    by (auto simp: p)
  from c(1-3) c' have C: "\<exists>t'. client_nextPhase tiedRiver = Inr t' \<and>
      phase (gameState t') = SHOWDOWN \<and> pot (gameState t') = 0 \<and>
      winners (gameState t') =
        [\<lparr>playerId = ''a'', handName = ''Straight'', amount = 20\<rparr>,
         \<lparr>playerId = ''b'', handName = ''Straight'', amount = 20\<rparr>] \<and>
      sum_list (map chips (seated (players t'))) = 340"
    by auto
  from r1 x1 p s A B r2 x2 ph pr C show ?thesis by blast
qed

end
